theory Spec2Isabelle
  imports Main
begin

section \<open>Strings\<close>

text \<open>
  The scraper works on JavaScript strings. They are modelled as \<open>string\<close>, one \<open>char\<close> per
  code unit, and the model is exact on ASCII text: case mapping acts on the ASCII letters,
  white space is the ASCII white space, and every other code is a caseless symbol that is
  neither a letter, a digit nor white space.
\<close>

definition isUpper :: "char \<Rightarrow> bool" where
  "isUpper c = (65 \<le> (of_char c :: nat) \<and> (of_char c :: nat) \<le> 90)"

definition isLower :: "char \<Rightarrow> bool" where
  "isLower c = (97 \<le> (of_char c :: nat) \<and> (of_char c :: nat) \<le> 122)"

definition isDigit :: "char \<Rightarrow> bool" where
  "isDigit c = (48 \<le> (of_char c :: nat) \<and> (of_char c :: nat) \<le> 57)"

text \<open>The class \<open>\s\<close> of a regular expression, which is also what \<open>trim\<close> strips.\<close>

definition isSpace :: "char \<Rightarrow> bool" where
  "isSpace c = ((of_char c :: nat) = 32 \<or> (9 \<le> (of_char c :: nat) \<and> (of_char c :: nat) \<le> 13))"

text \<open>The class \<open>\w\<close>: letters, digits and the underscore.\<close>

definition isWordChar :: "char \<Rightarrow> bool" where
  "isWordChar c = (isUpper c \<or> isLower c \<or> isDigit c \<or> c = CHR ''_'')"

definition toLowerChar :: "char \<Rightarrow> char" where
  "toLowerChar c = (if isUpper c then char_of ((of_char c :: nat) + 32) else c)"

definition toUpperChar :: "char \<Rightarrow> char" where
  "toUpperChar c = (if isLower c then char_of ((of_char c :: nat) - 32) else c)"

definition toLowerCase :: "string \<Rightarrow> string" where
  "toLowerCase s = map toLowerChar s"

definition toUpperCase :: "string \<Rightarrow> string" where
  "toUpperCase s = map toUpperChar s"

definition trim :: "string \<Rightarrow> string" where
  "trim s = rev (dropWhile isSpace (rev (dropWhile isSpace s)))"

fun startsWith :: "string \<Rightarrow> string \<Rightarrow> bool" where
  "startsWith s [] = True"
| "startsWith [] (p # ps) = False"
| "startsWith (c # cs) (p # ps) = (c = p \<and> startsWith cs ps)"

fun includesStr :: "string \<Rightarrow> string \<Rightarrow> bool" where
  "includesStr [] sub = (sub = [])"
| "includesStr (c # cs) sub = (startsWith (c # cs) sub \<or> includesStr cs sub)"

text \<open>\<open>s.split(sep)\<close> for a one-character separator: never empty, \<open>''''.split(sep)\<close> is \<open>['''']\<close>.\<close>

fun split :: "char \<Rightarrow> string \<Rightarrow> string list" where
  "split sep [] = [[]]"
| "split sep (c # cs) =
     (if c = sep then [] # split sep cs
      else (case split sep cs of [] \<Rightarrow> [[c]] | w # ws \<Rightarrow> (c # w) # ws))"

section \<open>utils: createSlug and normalizeLocation\<close>

text \<open>The character class \<open>[a-z0-9]\<close> of \<open>createSlug\<close>.\<close>

definition isSlugChar :: "char \<Rightarrow> bool" where
  "isSlugChar c = (isLower c \<or> isDigit c)"

text \<open>\<open>.replace(/[^a-z0-9]+/g, '-')\<close>: every maximal run outside the class becomes one dash.\<close>

function replaceNonAlnumRuns :: "string \<Rightarrow> string" where
  "replaceNonAlnumRuns [] = []"
| "replaceNonAlnumRuns (c # cs) =
     (if isSlugChar c then c # replaceNonAlnumRuns cs
      else CHR ''-'' # replaceNonAlnumRuns (dropWhile (\<lambda>x. \<not> isSlugChar x) cs))"
  by pat_completeness auto
termination
  by (relation "measure length") (auto simp: less_Suc_eq_le length_dropWhile_le)

text \<open>
  \<open>.replace(/(^-|-$)/g, '')\<close>: the scan removes a dash at the very start, and a dash at the
  very end of what is then left.
\<close>

definition stripEdgeDashes :: "string \<Rightarrow> string" where
  "stripEdgeDashes s =
     (let r = (case s of [] \<Rightarrow> [] | c # cs \<Rightarrow> if c = CHR ''-'' then cs else s)
      in if r \<noteq> [] \<and> last r = CHR ''-'' then butlast r else r)"

definition createSlug :: "string \<Rightarrow> string" where
  "createSlug name = stripEdgeDashes (replaceNonAlnumRuns (toLowerCase name))"

text \<open>
  The slug as the specification words it: the maximal runs of \<open>[a-z0-9]\<close> characters of
  the lowercased name, joined by single dashes.
\<close>

function alnumWords :: "string \<Rightarrow> string list" where
  "alnumWords [] = []"
| "alnumWords (c # cs) =
     (if isSlugChar c
      then takeWhile isSlugChar (c # cs) # alnumWords (dropWhile isSlugChar cs)
      else alnumWords cs)"
  by pat_completeness auto
termination
  by (relation "measure length") (auto simp: less_Suc_eq_le length_dropWhile_le)

fun joinDash :: "string list \<Rightarrow> string" where
  "joinDash [] = []"
| "joinDash [w] = w"
| "joinDash (w # v # ws) = w @ CHR ''-'' # joinDash (v # ws)"

definition slugSpec :: "string \<Rightarrow> string" where
  "slugSpec name = joinDash (alnumWords (toLowerCase name))"

text \<open>
  \<open>location.replace(/,?\s*(UK|USA|US)$/i, '').trim()\<close>. Every match ends at the end of
  the string, so the leftmost match is the longest one: the country code, all white space
  before it, and one comma before that white space.
\<close>

definition endsWithIgnoreCase :: "string \<Rightarrow> string \<Rightarrow> bool" where
  "endsWithIgnoreCase s k =
     (length k \<le> length s \<and> toLowerCase (drop (length s - length k) s) = toLowerCase k)"

definition countrySuffixLength :: "string \<Rightarrow> nat" where
  "countrySuffixLength s =
     (if endsWithIgnoreCase s ''UK'' then 2
      else if endsWithIgnoreCase s ''USA'' then 3
      else if endsWithIgnoreCase s ''US'' then 2
      else 0)"

definition dropTrailingSpaces :: "string \<Rightarrow> string" where
  "dropTrailingSpaces s = rev (dropWhile isSpace (rev s))"

definition dropTrailingComma :: "string \<Rightarrow> string" where
  "dropTrailingComma s = (if s \<noteq> [] \<and> last s = CHR '','' then butlast s else s)"

definition normalizeLocation :: "string \<Rightarrow> string" where
  "normalizeLocation loc =
     (let k = countrySuffixLength loc
      in if k = 0 then trim loc
         else trim (dropTrailingComma (dropTrailingSpaces (take (length loc - k) loc))))"

section \<open>Text classifiers\<close>

definition locations :: "string list" where
  "locations =
     [''Australia'', ''Brazil'', ''Canada'', ''Denmark'', ''Finland'', ''France'', ''Germany'',
      ''India'', ''Indonesia'', ''Japan'', ''Kenya'', ''Korea'', ''Malaysia'', ''Netherlands'',
      ''Nigeria'', ''Norway'', ''Saudi Arabia'', ''Singapore'', ''Sweden'', ''UK'', ''US'',
      ''United Arab Emirates'', ''Vietnam'', ''Spain'', ''Portugal'']"

definition isLocationText :: "string \<Rightarrow> bool" where
  "isLocationText t = list_ex (\<lambda>l. includesStr (toLowerCase t) (toLowerCase l)) locations"

definition sectors :: "string list" where
  "sectors =
     [''Energy and ClimateTech'', ''Climate'', ''B2B Software'', ''ConsumerTech'', ''FinTech'',
      ''Health and BioTech'', ''Real Estate and PropTech'', ''Industrials'']"

text \<open>\<open>/^[A-Z][a-z]+( [A-Z][a-z]+)*$/\<close>: capitalised words separated by single blanks.\<close>

function properCaseWords :: "string \<Rightarrow> bool" where
  "properCaseWords [] = False"
| "properCaseWords (c # cs) =
     (isUpper c \<and> takeWhile isLower cs \<noteq> [] \<and>
      (case dropWhile isLower cs of
         [] \<Rightarrow> True
       | d # ds \<Rightarrow> d = CHR '' '' \<and> properCaseWords ds))"
  by pat_completeness auto
termination
proof (relation "measure length")
  show "wf (measure length)" by simp
next
  fix c :: char and cs :: string and d :: char and ds :: string
  assume "dropWhile isLower cs = d # ds"
  then have "length (d # ds) \<le> length cs"
    using length_dropWhile_le [of isLower cs] by simp
  then show "(ds, c # cs) \<in> measure length" by simp
qed

definition isSectorText :: "string \<Rightarrow> bool" where
  "isSectorText t =
     (list_ex (\<lambda>sec. includesStr (toLowerCase t) (toLowerCase sec)) sectors \<or>
      includesStr (toLowerCase t) ''tech'' \<or>
      includesStr (toLowerCase t) ''software'' \<or>
      includesStr (toLowerCase t) ''service'' \<or>
      includesStr (toLowerCase t) ''platform'' \<or>
      properCaseWords t)"

section \<open>Founded year: the structural pattern\<close>

text \<open>
  \<open>cardHtml.match(/<img[^>]*>.*?(\b(?:19[4-9]\d|20[0-2]\d)\b)/)\<close>. The dot stops at a line
  terminator, \<open>.*?\<close> is lazy, and the match that starts leftmost wins.
\<close>

definition isLineTerminator :: "char \<Rightarrow> bool" where
  "isLineTerminator c = ((of_char c :: nat) = 10 \<or> (of_char c :: nat) = 13)"

text \<open>The four characters \<open>19[4-9]\d\<close> or \<open>20[0-2]\d\<close>.\<close>

definition isYearToken :: "string \<Rightarrow> bool" where
  "isYearToken y =
     (case y of
        [a, b, c, d] \<Rightarrow>
          isDigit d \<and>
          ((a = CHR ''1'' \<and> b = CHR ''9'' \<and> c \<in> set ''456789'') \<or>
           (a = CHR ''2'' \<and> b = CHR ''0'' \<and> c \<in> set ''012''))
      | _ \<Rightarrow> False)"

text \<open>
  The group \<open>(\b(?:19[4-9]\d|20[0-2]\d)\b)\<close> tried where the previous character is
  \<open>prev\<close> (there always is one: the tag's closing bracket at least).
\<close>

definition yearTokenAt :: "char \<Rightarrow> string \<Rightarrow> string option" where
  "yearTokenAt prev s =
     (if \<not> isWordChar prev \<and> isYearToken (take 4 s) \<and>
         (case drop 4 s of [] \<Rightarrow> True | n # _ \<Rightarrow> \<not> isWordChar n)
      then Some (take 4 s) else None)"

fun lazyYear :: "char \<Rightarrow> string \<Rightarrow> string option" where
  "lazyYear prev [] = None"
| "lazyYear prev (c # cs) =
     (case yearTokenAt prev (c # cs) of
        Some y \<Rightarrow> Some y
      | None \<Rightarrow> if isLineTerminator c then None else lazyYear c cs)"

text \<open>After \<open><img\<close>: \<open>[^>]*>\<close> runs to the first closing bracket, then the lazy scan.\<close>

definition afterImgTag :: "string \<Rightarrow> string option" where
  "afterImgTag s =
     (case dropWhile (\<lambda>c. c \<noteq> CHR ''>'') s of
        [] \<Rightarrow> None
      | g # rest \<Rightarrow> lazyYear g rest)"

fun structuralYearMatch :: "string \<Rightarrow> string option" where
  "structuralYearMatch [] = None"
| "structuralYearMatch (c # cs) =
     (case (if startsWith (c # cs) ''<img'' then afterImgTag (drop 4 (c # cs)) else None) of
        Some y \<Rightarrow> Some y
      | None \<Rightarrow> structuralYearMatch cs)"

text \<open>\<open>parseInt\<close> on a string of decimal digits.\<close>

definition parseInt :: "string \<Rightarrow> nat" where
  "parseInt s = foldl (\<lambda>n c. 10 * n + ((of_char c :: nat) - 48)) 0 s"

definition extractFoundedYear :: "string \<Rightarrow> nat \<Rightarrow> nat" where
  "extractFoundedYear cardHtml thisYear =
     (case structuralYearMatch cardHtml of
        None \<Rightarrow> 0
      | Some y \<Rightarrow> if 1940 \<le> parseInt y \<and> parseInt y \<le> thisYear then parseInt y else 0)"

text \<open>
  The structural pattern as the specification words it: an image tag, then on the same
  line a four-digit token that stands alone as a word and reads \<open>year\<close>.
\<close>

definition imageBeforeYear :: "string \<Rightarrow> nat \<Rightarrow> bool" where
  "imageBeforeYear markup year =
     (\<exists>pre tag mid y post.
        markup = pre @ ''<img'' @ tag @ ''>'' @ mid @ y @ post \<and>
        CHR ''>'' \<notin> set tag \<and>
        \<not> list_ex isLineTerminator mid \<and>
        \<not> isWordChar (last (CHR ''>'' # mid)) \<and>
        isYearToken y \<and> parseInt y = year \<and>
        (case post of [] \<Rightarrow> True | n # _ \<Rightarrow> \<not> isWordChar n))"

section \<open>Cards\<close>

text \<open>
  The HTML tree library is outside the repository. A card is what the queries of
  \<open>extractCompanyFromElement\<close> return on it: \<open>None\<close> where a selector finds no element or
  an attribute is absent, the raw text otherwise.
\<close>

record img =
  alt :: "string option"
  src :: "string option"

record descendant =
  elemText :: string
  isLinkOrMedia :: bool

record card =
  cardText :: string
  cardHtml :: "string option"
  heading :: "string option"
  nameHint :: "string option"
  strongText :: "string option"
  firstImg :: "img option"
  paragraphText :: "string option"
  descriptionHint :: "string option"
  nestedParagraph :: "string option"
  descendants :: "descendant list"
  hashLinks :: "string list"

text \<open>
  An anchor of the page: its \<open>href\<close>, the anchor itself seen as a card, what
  \<open>closest(selector)\<close> finds for each of the five parent selectors in their order, and
  whether it lies inside an element whose class contains \<open>portfolio\<close>.
\<close>

record element =
  href :: "string option"
  anchorCard :: card
  closest :: "card option list"
  inPortfolio :: bool

record company =
  id' :: string
  name :: string
  slug :: string
  website :: string
  description :: string
  founded_year :: nat
  location :: string
  sector :: string
  logo_url :: string
  url :: string
  api :: string

text \<open>\<open>a || b\<close> on strings: the first one that is not empty.\<close>

definition orElse :: "string \<Rightarrow> string \<Rightarrow> string" where
  "orElse a b = (if a \<noteq> [] then a else b)"

definition orEmpty :: "string option \<Rightarrow> string" where
  "orEmpty q = (case q of None \<Rightarrow> [] | Some v \<Rightarrow> v)"

text \<open>\<open>extractText\<close> on the result of \<open>$el.find(selector).first()\<close>.\<close>

definition extractText :: "string option \<Rightarrow> string" where
  "extractText q = (case q of None \<Rightarrow> [] | Some t \<Rightarrow> trim t)"

text \<open>\<open>extractAttribute\<close> on the first image and one of its attributes.\<close>

definition extractAttribute :: "img option \<Rightarrow> (img \<Rightarrow> string option) \<Rightarrow> string" where
  "extractAttribute q attr = (case q of None \<Rightarrow> [] | Some e \<Rightarrow> orEmpty (attr e))"

section \<open>extractCompanyFromElement\<close>

text \<open>
  Card resolution: the first parent selector whose closest match has a longer trimmed text
  than the anchor itself; the anchor when there is none.
\<close>

definition improvesOn :: "card \<Rightarrow> card option \<Rightarrow> bool" where
  "improvesOn el p =
     (case p of
        None \<Rightarrow> False
      | Some c \<Rightarrow> length (trim (cardText c)) > length (trim (cardText el)))"

definition resolveCard :: "element \<Rightarrow> card" where
  "resolveCard el =
     (case find (improvesOn (anchorCard el)) (closest el) of
        Some (Some c) \<Rightarrow> c
      | _ \<Rightarrow> anchorCard el)"

text \<open>\<open>website.replace(/^https?:\/\//, '')\<close>\<close>

definition stripScheme :: "string \<Rightarrow> string" where
  "stripScheme w =
     (if startsWith w ''https://'' then drop 8 w
      else if startsWith w ''http://'' then drop 7 w
      else w)"

text \<open>The name read off the website's host: its first label, capitalised.\<close>

definition nameFromUrl :: "string \<Rightarrow> string" where
  "nameFromUrl w =
     (let urlParts = split CHR ''.'' (split CHR ''/'' (stripScheme w) ! 0);
          n = (if length urlParts > 1 then urlParts ! 0 else urlParts ! (length urlParts - 1))
      in toUpperCase (take 1 n) @ drop 1 n)"

definition extractName :: "card \<Rightarrow> string \<Rightarrow> string" where
  "extractName c w =
     (let n = orElse (extractText (heading c))
               (orElse (extractText (nameHint c))
                 (orElse (extractText (strongText c))
                   (orElse (extractAttribute (firstImg c) alt) [])))
      in if n = [] then nameFromUrl w else n)"

text \<open>\<open>/^\d{4}$/\<close>\<close>

definition isFourDigits :: "string \<Rightarrow> bool" where
  "isFourDigits t = (length t = 4 \<and> list_all isDigit t)"

definition isTextBlock :: "descendant \<Rightarrow> bool" where
  "isTextBlock e =
     (let t = trim (elemText e)
      in length t > 20 \<and> length t < 300 \<and> \<not> includesStr t ''http'' \<and>
         \<not> isFourDigits t \<and> \<not> isLinkOrMedia e)"

definition extractDescription :: "card \<Rightarrow> string \<Rightarrow> string" where
  "extractDescription c n =
     (let d0 = orElse (extractText (paragraphText c))
                (orElse (extractText (descriptionHint c))
                  (orElse (extractText (nestedParagraph c)) []));
          d1 = (if d0 = [] \<or> length d0 < 10
                then (case filter isTextBlock (descendants c) of
                        [] \<Rightarrow> d0
                      | e # _ \<Rightarrow> trim (elemText e))
                else d0)
      in if d1 = [] \<or> length d1 < 5 then n @ '' is a portfolio company of Antler.'' else d1)"

text \<open>Location and sector from the placeholder anchors: the pair \<open>(location, sector)\<close>.\<close>

definition classifyHashLinks :: "string list \<Rightarrow> string \<times> string" where
  "classifyHashLinks links =
     (if length links \<ge> 2 then
        (let firstLink = trim (links ! 0); secondLink = trim (links ! 1)
         in if isLocationText firstLink
            then (firstLink, if isSectorText secondLink then secondLink else [])
            else if isSectorText firstLink
            then (if isLocationText secondLink then secondLink else [], firstLink)
            else ([], []))
      else if length links = 1 then
        (let linkText = trim (links ! 0)
         in if isLocationText linkText then (linkText, [])
            else if isSectorText linkText then ([], linkText)
            else ([], []))
      else ([], []))"

text \<open>
  \<open>cardText.match(/\[([^\]]+)\]/g)\<close>: the bracketed groups from left to right, each with
  its brackets; a group is not empty and the scan goes on after its closing bracket.
\<close>

function bracketMatches :: "string \<Rightarrow> string list" where
  "bracketMatches [] = []"
| "bracketMatches (c # cs) =
     (if c = CHR ''['' \<and> takeWhile (\<lambda>x. x \<noteq> CHR '']'') cs \<noteq> [] \<and>
         dropWhile (\<lambda>x. x \<noteq> CHR '']'') cs \<noteq> []
      then (c # takeWhile (\<lambda>x. x \<noteq> CHR '']'') cs @ '']'') #
           bracketMatches (tl (dropWhile (\<lambda>x. x \<noteq> CHR '']'') cs))
      else bracketMatches cs)"
  by pat_completeness auto
termination
proof (relation "measure length")
  show "wf (measure length)" by simp
next
  fix c :: char and cs :: string
  have "length (tl (dropWhile (\<lambda>x. x \<noteq> CHR '']'') cs)) \<le> length cs"
    using length_dropWhile_le [of "\<lambda>x. x \<noteq> CHR '']''" cs] by simp
  then show "(tl (dropWhile (\<lambda>x. x \<noteq> CHR '']'') cs), c # cs) \<in> measure length"
    by simp
next
  fix c :: char and cs :: string
  show "(cs, c # cs) \<in> measure length" by simp
qed

text \<open>The loop over the bracketed groups, on the pair \<open>(location, sector)\<close>.\<close>

fun classifyBrackets :: "string list \<Rightarrow> string \<times> string \<Rightarrow> string \<times> string" where
  "classifyBrackets [] ls = ls"
| "classifyBrackets (m # ms) (loc, sec) =
     (let t = trim (filter (\<lambda>x. x \<noteq> CHR ''['' \<and> x \<noteq> CHR '']'') m)
      in if loc = [] \<and> isLocationText t then classifyBrackets ms (t, sec)
         else if sec = [] \<and> isSectorText t \<and> \<not> isLocationText t then classifyBrackets ms (loc, t)
         else classifyBrackets ms (loc, sec))"

definition extractLocationSector :: "card \<Rightarrow> string \<times> string" where
  "extractLocationSector c =
     (let (loc, sec) = classifyHashLinks (hashLinks c)
      in if loc = [] \<and> sec = []
         then classifyBrackets (bracketMatches (cardText c)) (loc, sec)
         else (loc, sec))"

definition extractLogo :: "card \<Rightarrow> string" where
  "extractLogo c =
     (let logoUrl = orElse (extractAttribute (firstImg c) src) []
      in if logoUrl \<noteq> [] \<and> \<not> startsWith logoUrl ''http''
         then (if startsWith logoUrl ''//'' then ''https:'' @ logoUrl
               else if startsWith logoUrl ''/'' then ''https://www.antler.co'' @ logoUrl
               else ''https://'' @ logoUrl)
         else logoUrl)"

text \<open>
  The record, for a website and a resolved card. \<open>thisYear\<close> is what
  \<open>new Date().getFullYear()\<close> returns. No operation of the model throws, so the
  catch-all of the source has no branch here.
\<close>

definition buildCompany :: "string \<Rightarrow> card \<Rightarrow> nat \<Rightarrow> company option" where
  "buildCompany w c thisYear =
     (let n = extractName c w
      in if n = [] \<or> length n < 2 then None
         else
           (let d = extractDescription c n;
                (loc, sec) = extractLocationSector c;
                logoUrl = extractLogo c;
                foundedYear = extractFoundedYear (orElse (orEmpty (cardHtml c)) []) thisYear;
                sl = createSlug n;
                normalizedLocation = normalizeLocation loc
            in Some \<lparr> id' = ''antler-'' @ sl,
                      name = trim n,
                      slug = sl,
                      website = (if startsWith w ''http'' then w else ''https://'' @ w),
                      description = trim d,
                      founded_year = foundedYear,
                      location = orElse normalizedLocation ''Unknown'',
                      sector = orElse sec ''Unknown'',
                      logo_url = orElse logoUrl [],
                      url = ''https://www.antler.co/portfolio/'' @ sl,
                      api = ''https://antler-api.github.io/companies/'' @ sl @ ''.json'' \<rparr>))"

definition extractCompanyFromElement :: "element \<Rightarrow> nat \<Rightarrow> company option" where
  "extractCompanyFromElement el thisYear =
     (let w = orElse (orEmpty (href el)) []
      in if w = [] \<or> length w < 5 then None
         else buildCompany w (resolveCard el) thisYear)"

section \<open>extractCompaniesFromCurrentPage\<close>

text \<open>
  The rendered page: its anchors in document order, and whether some element has a class
  containing \<open>portfolio\<close>.
\<close>

record page_doc =
  anchors :: "element list"
  portfolioContainerExists :: bool

definition hasSecureHref :: "element \<Rightarrow> bool" where
  "hasSecureHref el = (case href el of None \<Rightarrow> False | Some h \<Rightarrow> startsWith h ''https://'')"

definition denylist :: "string list" where
  "denylist =
     [''antler.co'', ''linkedin.com'', ''twitter.com'', ''facebook.com'', ''instagram.com'',
      ''youtube.com'', ''tiktok.com'', ''github.com'', ''medium.com'', ''apple.com'',
      ''google.com'', ''mailto:'', ''tel:'']"

definition isCompanyLink :: "element \<Rightarrow> bool" where
  "isCompanyLink el =
     (case href el of
        None \<Rightarrow> False
      | Some h \<Rightarrow> h \<noteq> [] \<and> \<not> list_ex (includesStr h) denylist \<and> length h > 10)"

definition companyLinks :: "page_doc \<Rightarrow> element list" where
  "companyLinks doc =
     (let allLinks = filter hasSecureHref (anchors doc);
          portfolioLinks = filter inPortfolio allLinks
      in filter isCompanyLink
           (if portfolioContainerExists doc \<and> length portfolioLinks > 0
            then portfolioLinks else allLinks))"

text \<open>
  The loop over the links, with the set \<open>processedWebsites\<close>. It returns the anchors handed
  to \<open>extractCompanyFromElement\<close>, in order, and the companies pushed.
\<close>

fun linkLoop :: "nat \<Rightarrow> element list \<Rightarrow> string set \<Rightarrow> element list \<times> company list" where
  "linkLoop thisYear [] processedWebsites = ([], [])"
| "linkLoop thisYear (el # els) processedWebsites =
     (let w = orElse (orEmpty (href el)) []
      in if w \<in> processedWebsites then linkLoop thisYear els processedWebsites
         else
           (let (processed, companies) = linkLoop thisYear els (insert w processedWebsites)
            in (el # processed,
                (case extractCompanyFromElement el thisYear of
                   None \<Rightarrow> companies
                 | Some c \<Rightarrow> c # companies))))"

definition processedCandidates :: "page_doc \<Rightarrow> nat \<Rightarrow> element list" where
  "processedCandidates doc thisYear = fst (linkLoop thisYear (companyLinks doc) {})"

definition extractCompaniesFromCurrentPage :: "page_doc \<Rightarrow> nat \<Rightarrow> company list" where
  "extractCompaniesFromCurrentPage doc thisYear = snd (linkLoop thisYear (companyLinks doc) {})"

section \<open>The scraper and its pagination loop\<close>

record scraping_config =
  baseUrl :: string
  maxPages :: nat
  delay :: nat
  retryAttempts :: nat
  outputDir :: string

record scraping_progress =
  totalCompanies :: nat
  processedCompanies :: nat
  currentPage :: nat
  errors :: "string list"

text \<open>
  What is written to the blob store: the accumulated list, one company, or the statistics
  of a list. \<open>generateCompanyStats\<close> cannot throw and no property here reads what it
  counts, so the statistics are kept as the list they are computed from.
\<close>

datatype blob = CompanyList "company list" | Company company | Stats "company list"

text \<open>
  What the outside world does to a run. Page \<open>n\<close> is what navigation to page \<open>n\<close> meets: an
  error thrown by \<open>goto\<close>, an error thrown while the page content is read, or a document.
  \<open>writeFails k\<close> is the error of the \<open>k\<close>-th call of \<open>writeJsonFile\<close>, if it throws. A
  timeout of \<open>waitForSelector\<close> is caught on the spot and changes nothing, so it is not part
  of the model; neither are the delays.
\<close>

record page_io =
  gotoError :: "string option"
  contentError :: "string option"
  document :: page_doc

record environment =
  pages :: "nat \<Rightarrow> page_io"
  thisYear :: nat
  writeFails :: "nat \<Rightarrow> string option"

text \<open>
  The scraper object: \<open>pageReady\<close> says that \<open>this.page\<close> is set; \<open>writes\<close> lists the
  files written to the blob store, oldest first, and \<open>writeCount\<close> counts the writes
  attempted; \<open>navigations\<close> lists the page numbers \<open>goto\<close> was called for.
\<close>

record scraper =
  pageReady :: bool
  companies :: "company list"
  progress :: scraping_progress
  writes :: "(string \<times> blob) list"
  writeCount :: nat
  navigations :: "nat list"

text \<open>The two local variables of \<open>extractCompanyData\<close> (\<open>currentPage\<close> and \<open>hasMorePages\<close>).\<close>

record loop_vars =
  currentPageVar :: nat
  hasMorePages :: bool

text \<open>A call that may throw returns the scraper as it has left it and the error thrown.\<close>

definition writeJsonFile :: "environment \<Rightarrow> string \<Rightarrow> blob \<Rightarrow> scraper \<Rightarrow> scraper \<times> string option" where
  "writeJsonFile env path b s =
     (case writeFails env (writeCount s) of
        Some e \<Rightarrow> (s\<lparr>writeCount := writeCount s + 1\<rparr>, Some e)
      | None \<Rightarrow> (s\<lparr>writeCount := writeCount s + 1, writes := writes s @ [(path, b)]\<rparr>, None))"

definition andThen ::
  "scraper \<times> string option \<Rightarrow> (scraper \<Rightarrow> scraper \<times> string option) \<Rightarrow> scraper \<times> string option" where
  "andThen r f = (case r of (s, Some e) \<Rightarrow> (s, Some e) | (s, None) \<Rightarrow> f s)"

definition writeAggregates :: "scraping_config \<Rightarrow> environment \<Rightarrow> scraper \<Rightarrow> scraper \<times> string option" where
  "writeAggregates cfg env s =
     andThen (writeJsonFile env (outputDir cfg @ ''/all.json'') (CompanyList (companies s)) s)
       (\<lambda>s1. writeJsonFile env ''./meta.json'' (Stats (companies s1)) s1)"

definition savePageCompanies :: "scraping_config \<Rightarrow> environment \<Rightarrow> scraper \<Rightarrow> scraper \<times> string option" where
  "savePageCompanies cfg env s = writeAggregates cfg env s"

fun writeEach ::
  "environment \<Rightarrow> (string \<times> blob) list \<Rightarrow> scraper \<Rightarrow> scraper \<times> string option" where
  "writeEach env [] s = (s, None)"
| "writeEach env ((path, b) # rest) s = andThen (writeJsonFile env path b s) (writeEach env rest)"

text \<open>
  \<open>generateSectorFiles\<close> groups the companies in a plain object keyed by the slug of the
  sector. A key that names a property the object inherits reads as that property, which
  is neither empty nor an array: no group is made and \<open>push\<close> throws. Of these names
  only \<open>constructor\<close> can be a slug.
\<close>

definition objectPrototypeKeys :: "string list" where
  "objectPrototypeKeys =
     [''constructor'', ''__defineGetter__'', ''__defineSetter__'', ''hasOwnProperty'',
      ''__lookupGetter__'', ''__lookupSetter__'', ''isPrototypeOf'', ''propertyIsEnumerable'',
      ''toString'', ''valueOf'', ''__proto__'', ''toLocaleString'']"

definition pushError :: string where
  "pushError = ''TypeError: sectorGroups[sectorSlug].push is not a function''"

fun addToGroup :: "string \<Rightarrow> company \<Rightarrow> (string \<times> company list) list \<Rightarrow> (string \<times> company list) list" where
  "addToGroup k c [] = [(k, [c])]"
| "addToGroup k c ((k', cs) # rest) =
     (if k = k' then (k', cs @ [c]) # rest else (k', cs) # addToGroup k c rest)"

text \<open>The \<open>forEach\<close> over the companies: the error thrown, or the groups in insertion order.\<close>

fun sectorGroups ::
  "company list \<Rightarrow> (string \<times> company list) list \<Rightarrow> string + (string \<times> company list) list" where
  "sectorGroups [] g = Inr g"
| "sectorGroups (c # cs) g =
     (if createSlug (sector c) \<in> set objectPrototypeKeys then Inl pushError
      else sectorGroups cs (addToGroup (createSlug (sector c)) c g))"

text \<open>
  \<open>Object.entries\<close>: the keys that are array indices first, in ascending order, then the
  other keys in the order of their insertion. An array index is a decimal numeral
  without a leading zero that is below \<open>4294967295\<close>; two of them compare by length,
  then digit by digit.
\<close>

fun digitsLess :: "string \<Rightarrow> string \<Rightarrow> bool" where
  "digitsLess [] b = False"
| "digitsLess (x # xs) [] = False"
| "digitsLess (x # xs) (y # ys) =
     ((of_char x :: nat) < of_char y \<or> (x = y \<and> digitsLess xs ys))"

definition indexLess :: "string \<Rightarrow> string \<Rightarrow> bool" where
  "indexLess a b = (length a < length b \<or> (length a = length b \<and> digitsLess a b))"

definition isArrayIndex :: "string \<Rightarrow> bool" where
  "isArrayIndex k =
     (k = ''0'' \<or>
      (k \<noteq> [] \<and> list_all isDigit k \<and> take 1 k \<noteq> ''0'' \<and> indexLess k ''4294967295''))"

fun insertEntry :: "string \<times> 'a \<Rightarrow> (string \<times> 'a) list \<Rightarrow> (string \<times> 'a) list" where
  "insertEntry e [] = [e]"
| "insertEntry e (x # xs) =
     (if indexLess (fst e) (fst x) then e # x # xs else x # insertEntry e xs)"

definition objectEntries :: "(string \<times> 'a) list \<Rightarrow> (string \<times> 'a) list" where
  "objectEntries g =
     foldr insertEntry (filter (\<lambda>e. isArrayIndex (fst e)) g) [] @
     filter (\<lambda>e. \<not> isArrayIndex (fst e)) g"

definition generateSectorFiles :: "environment \<Rightarrow> scraper \<Rightarrow> scraper \<times> string option" where
  "generateSectorFiles env s =
     (case sectorGroups (companies s) [] of
        Inl e \<Rightarrow> (s, Some e)
      | Inr g \<Rightarrow>
          writeEach env
            (map (\<lambda>(sec, cs). (''./industries/'' @ sec @ ''.json'', CompanyList cs)) (objectEntries g)) s)"

definition generateOutputFiles :: "scraping_config \<Rightarrow> environment \<Rightarrow> scraper \<Rightarrow> scraper \<times> string option" where
  "generateOutputFiles cfg env s =
     andThen (writeAggregates cfg env s)
       (\<lambda>s1. andThen
          (writeEach env
             (map (\<lambda>c. (outputDir cfg @ ''/'' @ slug c @ ''.json'', Company c)) (companies s1)) s1)
          (generateSectorFiles env))"

text \<open>
  One round of the \<open>while\<close> loop of \<open>extractCompanyData\<close>. Whatever is thrown inside the
  round is caught by the round itself, which then only clears \<open>hasMorePages\<close>.
\<close>

definition pageRound ::
  "scraping_config \<Rightarrow> environment \<Rightarrow> scraper \<times> loop_vars \<Rightarrow> scraper \<times> loop_vars" where
  "pageRound cfg env sv =
     (let s = fst sv; v = snd sv; k = currentPageVar v; io = pages env k;
          s1 = (if k > 1 then s\<lparr>navigations := navigations s @ [k]\<rparr> else s)
      in if k > 1 \<and> gotoError io \<noteq> None then (s1, v\<lparr>hasMorePages := False\<rparr>)
         else if contentError io \<noteq> None then (s1, v\<lparr>hasMorePages := False\<rparr>)
         else
           (let pageCompanies = extractCompaniesFromCurrentPage (document io) (thisYear env)
            in if length pageCompanies = 0 then (s1, v\<lparr>hasMorePages := False\<rparr>)
               else
                 (let existingSlugs = set (map slug (companies s1));
                      newCompanies = filter (\<lambda>c. slug c \<notin> existingSlugs) pageCompanies
                  in if length newCompanies = 0 then (s1, v\<lparr>hasMorePages := False\<rparr>)
                     else
                       (let s2 = s1\<lparr> companies := companies s1 @ newCompanies,
                                      progress := (progress s1)\<lparr> processedCompanies :=
                                        processedCompanies (progress s1) + length newCompanies \<rparr> \<rparr>;
                            saved = savePageCompanies cfg env s2
                        in case snd saved of
                             Some e \<Rightarrow> (fst saved, v\<lparr>hasMorePages := False\<rparr>)
                           | None \<Rightarrow> (fst saved, v\<lparr>currentPageVar := k + 1\<rparr>)))))"

function pageLoop ::
  "scraping_config \<Rightarrow> environment \<Rightarrow> scraper \<times> loop_vars \<Rightarrow> scraper \<times> loop_vars" where
  "pageLoop cfg env sv =
     (if hasMorePages (snd sv) \<and> currentPageVar (snd sv) \<le> maxPages cfg
      then pageLoop cfg env (pageRound cfg env sv)
      else sv)"
  by pat_completeness auto
termination
proof (relation "measure (\<lambda>(cfg, env, sv).
         2 * (Suc (maxPages cfg) - currentPageVar (snd sv)) + (if hasMorePages (snd sv) then 1 else 0))")
  show "wf (measure (\<lambda>(cfg, env, sv).
         2 * (Suc (maxPages cfg) - currentPageVar (snd sv)) + (if hasMorePages (snd sv) then 1 else 0)))"
    by simp
next
  fix cfg :: scraping_config and env :: environment and sv :: "scraper \<times> loop_vars"
  assume a: "hasMorePages (snd sv) \<and> currentPageVar (snd sv) \<le> maxPages cfg"
  have "snd (pageRound cfg env sv) = (snd sv)\<lparr>hasMorePages := False\<rparr> \<or>
        snd (pageRound cfg env sv) = (snd sv)\<lparr>currentPageVar := currentPageVar (snd sv) + 1\<rparr>"
    by (simp add: pageRound_def Let_def split: option.split)
  then show "((cfg, env, pageRound cfg env sv), (cfg, env, sv)) \<in> measure (\<lambda>(cfg, env, sv).
         2 * (Suc (maxPages cfg) - currentPageVar (snd sv)) + (if hasMorePages (snd sv) then 1 else 0))"
    using a by auto
qed

text \<open>
  \<open>extractCompanyData\<close>; the final values of its two local variables are returned beside
  the scraper.
\<close>

definition extractCompanyData ::
  "scraping_config \<Rightarrow> environment \<Rightarrow> scraper \<Rightarrow> scraper \<times> loop_vars" where
  "extractCompanyData cfg env s =
     (let r = pageLoop cfg env (s, \<lparr> currentPageVar = 1, hasMorePages = True \<rparr>)
      in ((fst r)\<lparr> progress := (progress (fst r))\<lparr> totalCompanies := length (companies (fst r)) \<rparr> \<rparr>,
          snd r))"

text \<open>
  \<open>scrapePortfolio\<close>: the scraper it leaves and the error it throws, if any. Its handler
  is the only place that writes \<open>progress.errors\<close>.
\<close>

definition recordFailure :: "scraper \<Rightarrow> string \<Rightarrow> scraper \<times> string option" where
  "recordFailure s e =
     (s\<lparr> progress := (progress s)\<lparr> errors := errors (progress s) @ [''Scraping error: '' @ e] \<rparr> \<rparr>,
      Some e)"

definition scrapePortfolio ::
  "scraping_config \<Rightarrow> environment \<Rightarrow> scraper \<Rightarrow> scraper \<times> string option" where
  "scrapePortfolio cfg env s =
     (if \<not> pageReady s then (s, Some ''Browser not initialized'')
      else
        (let s1 = s\<lparr>navigations := navigations s @ [1]\<rparr>
         in case gotoError (pages env 1) of
              Some e \<Rightarrow> recordFailure s1 e
            | None \<Rightarrow>
                (let out = generateOutputFiles cfg env (fst (extractCompanyData cfg env s1))
                 in case snd out of
                      Some e \<Rightarrow> recordFailure (fst out) e
                    | None \<Rightarrow> (fst out, None))))"

text \<open>A fresh scraper, as the constructor and \<open>init\<close> leave it.\<close>

definition newScraper :: scraper where
  "newScraper =
     \<lparr> pageReady = True, companies = [],
       progress = \<lparr> totalCompanies = 0, processedCompanies = 0, currentPage = 0, errors = [] \<rparr>,
       writes = [], writeCount = 0, navigations = [] \<rparr>"

definition defaultConfig :: scraping_config where
  "defaultConfig =
     \<lparr> baseUrl = ''https://www.antler.co/portfolio'', maxPages = 20, delay = 2000,
       retryAttempts = 3, outputDir = ''./companies'' \<rparr>"

section \<open>Auxiliary notions for the proofs\<close>

text \<open>The dash that \<open>replaceNonAlnumRuns\<close> leaves before the first word and after the last.\<close>

definition leadDash :: "string \<Rightarrow> string" where
  "leadDash s = (if s \<noteq> [] \<and> \<not> isSlugChar (hd s) then ''-'' else [])"

definition trailDash :: "string \<Rightarrow> string" where
  "trailDash s = (if alnumWords s \<noteq> [] \<and> \<not> isSlugChar (last s) then ''-'' else [])"

text \<open>One of the three country codes, in any letter case.\<close>

definition isCountryCode :: "string \<Rightarrow> bool" where
  "isCountryCode k = (toLowerCase k = ''uk'' \<or> toLowerCase k = ''usa'' \<or> toLowerCase k = ''us'')"

text \<open>The key under which the link loop remembers an anchor.\<close>

definition websiteOf :: "element \<Rightarrow> string" where
  "websiteOf el = orElse (orEmpty (href el)) []"

text \<open>
  Notions for the pagination loop: the records a page yields, those of them whose slug is
  not accumulated yet, the scraper after the navigation to a page (there is none for
  page 1 inside the loop), after the merge of the new records, and after a number of
  rounds from the start of \<open>extractCompanyData\<close>. A page is readable when neither
  \<open>goto\<close> nor reading its content throws.
\<close>

definition pageRecords :: "environment \<Rightarrow> nat \<Rightarrow> company list" where
  "pageRecords env k = extractCompaniesFromCurrentPage (document (pages env k)) (thisYear env)"

definition newRecords :: "scraper \<Rightarrow> company list \<Rightarrow> company list" where
  "newRecords s recs = filter (\<lambda>c. slug c \<notin> set (map slug (companies s))) recs"






section \<open>Example inputs\<close>

definition emptyCard :: card where
  "emptyCard =
     \<lparr> cardText = [], cardHtml = None, heading = None, nameHint = None, strongText = None,
       firstImg = None, paragraphText = None, descriptionHint = None, nestedParagraph = None,
       descendants = [], hashLinks = [] \<rparr>"

text \<open>A card whose only content is a heading, as in \<open><div><h3>Acme Corp</h3><a ...></a></div>\<close>.\<close>

definition headedCard :: "string \<Rightarrow> card" where
  "headedCard h = emptyCard\<lparr> cardText := h, heading := Some h \<rparr>"

text \<open>An anchor without text of its own whose enclosing \<open>div\<close> is the card.\<close>

definition anchorIn :: "string \<Rightarrow> card \<Rightarrow> element" where
  "anchorIn h c =
     \<lparr> href = Some h, anchorCard = emptyCard, closest = [None, None, None, Some c, None],
       inPortfolio = False \<rparr>"

definition pageOf :: "element list \<Rightarrow> page_io" where
  "pageOf els =
     \<lparr> gotoError = None, contentError = None,
       document = \<lparr> anchors = els, portfolioContainerExists = False \<rparr> \<rparr>"

text \<open>A site with the given pages and nothing behind them, in 2026, on a disk that works.\<close>

definition worldOf :: "page_io list \<Rightarrow> environment" where
  "worldOf ps =
     \<lparr> pages = (\<lambda>n. if 1 \<le> n \<and> n \<le> length ps then ps ! (n - 1) else pageOf []),
       thisYear = 2026, writeFails = (\<lambda>_. None) \<rparr>"

text \<open>Two companies on one page, with different websites and names of the same slug.\<close>

definition twinPage :: page_io where
  "twinPage =
     pageOf [anchorIn ''https://acme-corp.io/'' (headedCard ''Acme Corp''),
             anchorIn ''https://acmecorp.com/'' (headedCard ''Acme-Corp'')]"

text \<open>
  A card in the layout of the site (logo, year, location, sector, name), as in
  \<open><div><img src="/logo.png" alt="Nimbus"><div>2021</div><a href="#">Singapore</a>
  <a href="#">FinTech</a><h3>Nimbus</h3><a href="https://nimbus.io/"></a></div>\<close>
  written on one line.
\<close>

definition nimbusCard :: card where
  "nimbusCard =
     \<lparr> cardText = ''2021SingaporeFinTechNimbus'',
       cardHtml = Some (''<img src=\"/logo.png\" alt=\"Nimbus\"><div>2021</div>'' @
                        ''<a href=\"#\">Singapore</a><a href=\"#\">FinTech</a><h3>Nimbus</h3>'' @
                        ''<a href=\"https://nimbus.io/\"></a>''),
       heading = Some ''Nimbus'', nameHint = None, strongText = None,
       firstImg = Some \<lparr> alt = Some ''Nimbus'', src = Some ''/logo.png'' \<rparr>,
       paragraphText = None, descriptionHint = None, nestedParagraph = None,
       descendants =
         [\<lparr> elemText = [], isLinkOrMedia = True \<rparr>, \<lparr> elemText = ''2021'', isLinkOrMedia = False \<rparr>,
          \<lparr> elemText = ''Singapore'', isLinkOrMedia = True \<rparr>,
          \<lparr> elemText = ''FinTech'', isLinkOrMedia = True \<rparr>,
          \<lparr> elemText = ''Nimbus'', isLinkOrMedia = False \<rparr>, \<lparr> elemText = [], isLinkOrMedia = True \<rparr>],
       hashLinks = [''Singapore'', ''FinTech''] \<rparr>"

definition nimbusAnchor :: element where
  "nimbusAnchor = anchorIn ''https://nimbus.io/'' nimbusCard"

definition nimbusRecord :: company where
  "nimbusRecord =
     \<lparr> id' = ''antler-nimbus'', name = ''Nimbus'', slug = ''nimbus'',
       website = ''https://nimbus.io/'',
       description = ''Nimbus is a portfolio company of Antler.'',
       founded_year = 2021, location = ''Singapore'', sector = ''FinTech'',
       logo_url = ''https://www.antler.co/logo.png'',
       url = ''https://www.antler.co/portfolio/nimbus'',
       api = ''https://antler-api.github.io/companies/nimbus.json'' \<rparr>"

text \<open>The same card with a single placeholder anchor of the given text.\<close>

definition soloAnchor :: "string \<Rightarrow> element" where
  "soloAnchor t = anchorIn ''https://nimbus.io/'' (nimbusCard\<lparr> hashLinks := [t] \<rparr>)"

text \<open>
  A directory page: a navigation link to the site itself, a portfolio container with the
  Nimbus card, whose logo and name both link to the company and which also links to a
  social profile, and a company link outside the container.
\<close>

definition nimbusEntry :: element where
  "nimbusEntry = nimbusAnchor\<lparr> inPortfolio := True \<rparr>"

definition directoryPage :: page_doc where
  "directoryPage =
     \<lparr> anchors =
         [anchorIn ''https://www.antler.co/about'' emptyCard,
          nimbusEntry,
          nimbusEntry,
          (anchorIn ''https://www.linkedin.com/company/nimbus'' nimbusCard)\<lparr> inPortfolio := True \<rparr>,
          anchorIn ''https://outside.example/'' (headedCard ''Outside'')],
       portfolioContainerExists = True \<rparr>"





text \<open>
  A company shown by its logo alone, \<open><a href="https://nimbus.io/"><img src="/logo.png"
  alt="..."></a>\<close> outside any container: the anchor is its own card and the name
  comes from the \<open>alt\<close> text.
\<close>

definition logoAnchor :: "string \<Rightarrow> element" where
  "logoAnchor a =
     \<lparr> href = Some ''https://nimbus.io/'',
       anchorCard = emptyCard\<lparr> cardHtml := Some (''<img src=\"/logo.png\" alt=\"'' @ a @ ''\">''),
                              firstImg := Some \<lparr> alt = Some a, src = Some ''/logo.png'' \<rparr>,
                              descendants := [\<lparr> elemText = [], isLinkOrMedia = True \<rparr>] \<rparr>,
       closest = [None, None, None, None, None],
       inPortfolio = False \<rparr>"


section \<open>Character classes on the bits of a character\<close>

text \<open>
  The classes and the case mappings read off the eight bits of a character, so that
  concrete strings evaluate without arithmetic.
\<close>

lemma isUpper_Char [code]:
  "isUpper (Char b0 b1 b2 b3 b4 b5 b6 b7) =
     (\<not> b7 \<and> b6 \<and> \<not> b5 \<and> (b0 \<or> b1 \<or> b2 \<or> b3 \<or> b4) \<and> \<not> (b4 \<and> b3 \<and> (b2 \<or> (b1 \<and> b0))))"
  by (cases b0; cases b1; cases b2; cases b3; cases b4; cases b5; cases b6; cases b7;
      simp add: isUpper_def)

lemma isLower_Char [code]:
  "isLower (Char b0 b1 b2 b3 b4 b5 b6 b7) =
     (\<not> b7 \<and> b6 \<and> b5 \<and> (b0 \<or> b1 \<or> b2 \<or> b3 \<or> b4) \<and> \<not> (b4 \<and> b3 \<and> (b2 \<or> (b1 \<and> b0))))"
  by (cases b0; cases b1; cases b2; cases b3; cases b4; cases b5; cases b6; cases b7;
      simp add: isLower_def)

lemma isDigit_Char [code]:
  "isDigit (Char b0 b1 b2 b3 b4 b5 b6 b7) =
     (\<not> b7 \<and> \<not> b6 \<and> b5 \<and> b4 \<and> \<not> (b3 \<and> (b2 \<or> b1)))"
  by (cases b0; cases b1; cases b2; cases b3; cases b4; cases b5; cases b6; cases b7;
      simp add: isDigit_def)

lemma isSpace_Char [code]:
  "isSpace (Char b0 b1 b2 b3 b4 b5 b6 b7) =
     (\<not> b7 \<and> \<not> b6 \<and>
      ((b5 \<and> \<not> b4 \<and> \<not> b3 \<and> \<not> b2 \<and> \<not> b1 \<and> \<not> b0) \<or>
       (\<not> b5 \<and> \<not> b4 \<and> b3 \<and> \<not> (b2 \<and> b1) \<and> (b0 \<or> b1 \<or> b2))))"
  by (cases b0; cases b1; cases b2; cases b3; cases b4; cases b5; cases b6; cases b7;
      simp add: isSpace_def)

lemma toLowerChar_Char [code]:
  "toLowerChar (Char b0 b1 b2 b3 b4 b5 b6 b7) =
     (if isUpper (Char b0 b1 b2 b3 b4 b5 b6 b7) then Char b0 b1 b2 b3 b4 True b6 b7
      else Char b0 b1 b2 b3 b4 b5 b6 b7)"
  by (cases b0; cases b1; cases b2; cases b3; cases b4; cases b5; cases b6; cases b7;
      simp add: toLowerChar_def isUpper_def char_of_def bit_Suc_0_iff)

lemma toUpperChar_Char [code]:
  "toUpperChar (Char b0 b1 b2 b3 b4 b5 b6 b7) =
     (if isLower (Char b0 b1 b2 b3 b4 b5 b6 b7) then Char b0 b1 b2 b3 b4 False b6 b7
      else Char b0 b1 b2 b3 b4 b5 b6 b7)"
  by (cases b0; cases b1; cases b2; cases b3; cases b4; cases b5; cases b6; cases b7;
      simp add: toUpperChar_def isLower_def char_of_def bit_Suc_0_iff)

lemma isLineTerminator_Char [code]:
  "isLineTerminator (Char b0 b1 b2 b3 b4 b5 b6 b7) =
     (\<not> b7 \<and> \<not> b6 \<and> \<not> b5 \<and> \<not> b4 \<and> b3 \<and>
      ((b1 \<and> \<not> b2 \<and> \<not> b0) \<or> (\<not> b1 \<and> b2 \<and> b0)))"
  by (cases b0; cases b1; cases b2; cases b3; cases b4; cases b5; cases b6; cases b7;
      simp add: isLineTerminator_def)

section \<open>Properties of the slug\<close>

lemma alnumWords_dropWhile_non: "alnumWords (dropWhile (\<lambda>x. \<not> isSlugChar x) s) = alnumWords s"
  by (induction s) auto

lemma alnumWords_Nil_iff: "alnumWords s = [] \<longleftrightarrow> (\<forall>c\<in>set s. \<not> isSlugChar c)"
  by (induction s rule: alnumWords.induct) auto

lemma alnumWords_words: "w \<in> set (alnumWords s) \<Longrightarrow> w \<noteq> [] \<and> (\<forall>c\<in>set w. isSlugChar c)"
proof (induction s arbitrary: w rule: alnumWords.induct)
  case 1
  then show ?case by simp
next
  case (2 c cs)
  show ?case
  proof (cases "isSlugChar c")
    case True
    then have "w = c # takeWhile isSlugChar cs \<or> w \<in> set (alnumWords (dropWhile isSlugChar cs))"
      using 2(3) by simp
    then show ?thesis
    proof
      assume "w = c # takeWhile isSlugChar cs"
      then show ?thesis using True by (auto dest: set_takeWhileD)
    next
      assume "w \<in> set (alnumWords (dropWhile isSlugChar cs))"
      then show ?thesis using 2(1) True by blast
    qed
  next
    case False
    then have "w \<in> set (alnumWords cs)" using 2(3) by simp
    then show ?thesis using 2(2) False by blast
  qed
qed

lemma joinDash_Cons_Cons: "joinDash ((c # w) # ws) = c # joinDash (w # ws)"
  by (cases ws) auto

lemma joinDash_hd: "ws \<noteq> [] \<Longrightarrow> \<forall>w\<in>set ws. w \<noteq> [] \<and> (\<forall>c\<in>set w. isSlugChar c) \<Longrightarrow>
   joinDash ws \<noteq> [] \<and> isSlugChar (hd (joinDash ws)) \<and> isSlugChar (last (joinDash ws))"
proof (induction ws rule: joinDash.induct)
  case 1
  then show ?case by simp
next
  case (2 w)
  then show ?case by (cases w) auto
next
  case (3 w v ws)
  have ih: "joinDash (v # ws) \<noteq> [] \<and> isSlugChar (last (joinDash (v # ws)))"
    using 3 by simp
  have w: "w \<noteq> [] \<and> isSlugChar (hd w)"
    using 3(3) by (cases w) simp_all
  have "joinDash (w # v # ws) = w @ CHR ''-'' # joinDash (v # ws)"
    by simp
  then show ?case using ih w
    by (simp del: joinDash.simps)
qed

lemma last_dropWhile: "dropWhile P xs \<noteq> [] \<Longrightarrow> last (dropWhile P xs) = last xs"
  by (induction xs) (auto split: if_splits)

lemma replace_shape:
  "replaceNonAlnumRuns s = leadDash s @ joinDash (alnumWords s) @ trailDash s"
proof (induction s rule: replaceNonAlnumRuns.induct)
  case 1
  then show ?case by (simp add: leadDash_def trailDash_def)
next
  case (2 c cs)
  show ?case
  proof (cases "isSlugChar c")
    case True
    note c = this
    have b: "replaceNonAlnumRuns (c # cs) = c # replaceNonAlnumRuns cs"
      using c by simp
    have ih: "replaceNonAlnumRuns cs = leadDash cs @ joinDash (alnumWords cs) @ trailDash cs"
      using 2(1) c by simp
    show ?thesis
    proof (cases cs)
      case Nil
      then show ?thesis using c by (simp add: leadDash_def trailDash_def)
    next
      case (Cons d ds)
      show ?thesis
      proof (cases "isSlugChar d")
        case True
        then show ?thesis using c Cons ih b
          by (simp add: leadDash_def trailDash_def joinDash_Cons_Cons)
      next
        case False
        have w: "alnumWords (c # cs) = [c] # alnumWords cs"
          using c False Cons by simp
        have l: "leadDash cs = ''-''" "leadDash (c # cs) = []"
          using c False Cons by (simp_all add: leadDash_def)
        have la: "last (c # cs) = last cs" using Cons by simp
        show ?thesis
        proof (cases "alnumWords cs")
          case Nil
          then have "\<not> isSlugChar (last cs)"
            using Cons by (simp add: alnumWords_Nil_iff del: alnumWords.simps)
          then show ?thesis using Nil w l la b ih
            by (simp add: trailDash_def del: alnumWords.simps replaceNonAlnumRuns.simps)
        next
          case (Cons v vs)
          then show ?thesis using w l la b ih
            by (simp add: trailDash_def del: alnumWords.simps replaceNonAlnumRuns.simps)
        qed
      qed
    qed
  next
    case False
    define r where "r = dropWhile (\<lambda>x. \<not> isSlugChar x) cs"
    have b: "replaceNonAlnumRuns (c # cs) = CHR ''-'' # replaceNonAlnumRuns r"
      using False by (simp add: r_def)
    have ih: "replaceNonAlnumRuns r = leadDash r @ joinDash (alnumWords r) @ trailDash r"
      using 2(2) False by (simp add: r_def)
    have w: "alnumWords (c # cs) = alnumWords r"
      using False by (simp add: r_def alnumWords_dropWhile_non)
    have lr: "leadDash r = []"
      using hd_dropWhile [of "\<lambda>x. \<not> isSlugChar x" cs] by (auto simp: leadDash_def r_def)
    have l: "leadDash (c # cs) = ''-''"
      using False by (simp add: leadDash_def)
    have t: "trailDash (c # cs) = trailDash r"
    proof (cases "alnumWords r")
      case Nil
      then show ?thesis using w by (simp add: trailDash_def del: alnumWords.simps)
    next
      case (Cons v vs)
      then have "r \<noteq> []" by auto
      then have "last r = last (c # cs)"
        using last_dropWhile [of "\<lambda>x. \<not> isSlugChar x" cs] by (auto simp: r_def)
      then show ?thesis using w by (simp add: trailDash_def del: alnumWords.simps)
    qed
    show ?thesis using b ih w lr l t
      by (simp del: alnumWords.simps replaceNonAlnumRuns.simps)
  qed
qed

lemma createSlug_refines: "createSlug nm = slugSpec nm"
proof -
  define s where "s = toLowerCase nm"
  have sh: "replaceNonAlnumRuns s = leadDash s @ joinDash (alnumWords s) @ trailDash s"
    by (rule replace_shape)
  show ?thesis
  proof (cases "alnumWords s")
    case Nil
    then have "replaceNonAlnumRuns s = leadDash s" 
      using sh by (simp add: trailDash_def)
    then show ?thesis using Nil
      by (simp add: createSlug_def slugSpec_def s_def [symmetric] stripEdgeDashes_def leadDash_def)
  next
    case (Cons v vs)
    define J where "J = joinDash (alnumWords s)"
    have J: "J \<noteq> [] \<and> isSlugChar (hd J) \<and> isSlugChar (last J)"
      unfolding J_def using Cons alnumWords_words [of _ s] by (intro joinDash_hd) auto
    have nd: "\<not> isSlugChar CHR ''-''"
      by (simp add: isSlugChar_def isLower_def isDigit_def)
    have hdJ: "hd J \<noteq> CHR ''-''" and lastJ: "last J \<noteq> CHR ''-''"
      using J nd by auto
    obtain j js where Jc: "J = j # js" using J by (cases J) auto
    have "stripEdgeDashes (leadDash s @ J @ trailDash s) = J"
      using J hdJ lastJ Jc
      by (auto simp: stripEdgeDashes_def leadDash_def trailDash_def butlast_append)
    then show ?thesis using sh
      by (simp add: createSlug_def slugSpec_def s_def [symmetric] J_def)
  qed
qed


text \<open>
  Claim C3. \<open>createSlug\<close> is a function of the name alone. Its value is the lowercased name
  cut into its maximal runs of \<open>[a-z0-9]\<close> characters, the runs joined by single dashes:
  every maximal run of other characters has become one dash, and no dash leads or trails.
  \<open>createSlug(''Acme Corp!'')\<close> is \<open>''acme-corp''\<close>.
\<close>

theorem createSlug_collapses_runs:
  "createSlug nm = slugSpec nm \<and>
   \<not> startsWith (createSlug nm) ''-'' \<and>
   \<not> startsWith (rev (createSlug nm)) ''-'' \<and>
   createSlug ''Acme Corp!'' = ''acme-corp''"
proof -
  have ex: "createSlug ''Acme Corp!'' = ''acme-corp''"
    by code_simp
  have nd: "\<not> isSlugChar CHR ''-''"
    by (simp add: isSlugChar_def isLower_def isDigit_def)
  have edges: "\<not> startsWith (slugSpec nm) ''-'' \<and> \<not> startsWith (rev (slugSpec nm)) ''-''"
  proof (cases "alnumWords (toLowerCase nm)")
    case Nil
    then show ?thesis by (simp add: slugSpec_def)
  next
    case (Cons v vs)
    define J where "J = joinDash (alnumWords (toLowerCase nm))"
    have J: "J \<noteq> [] \<and> isSlugChar (hd J) \<and> isSlugChar (last J)"
      unfolding J_def using Cons alnumWords_words [of _ "toLowerCase nm"]
      by (intro joinDash_hd) auto
    obtain j js where Jc: "J = j # js" using J by (cases J) auto
    have "j \<noteq> CHR ''-''" using J Jc nd by auto
    moreover have "hd (rev J) \<noteq> CHR ''-''"
      using J nd by (auto simp: hd_rev)
    moreover have "rev J \<noteq> []" using J by simp
    ultimately show ?thesis
      unfolding slugSpec_def J_def [symmetric] using Jc
      by (cases "rev J") auto
  qed
  show ?thesis using ex edges createSlug_refines [of nm] by simp
qed

text \<open>
  Claim C1. The merge drops the records whose slug is already accumulated and counts what
  it appends, but two records of one page that share a slug are both new and both
  appended: after the page \<open>twinPage\<close> the accumulated set holds the slug \<open>acme-corp\<close>
  twice.
\<close>

theorem same_page_slug_twice:
  "map website (extractCompaniesFromCurrentPage (document twinPage) 2026) =
     [''https://acme-corp.io/'', ''https://acmecorp.com/''] \<and>
   map slug (companies (fst (scrapePortfolio defaultConfig (worldOf [twinPage]) newScraper))) =
     [''acme-corp'', ''acme-corp''] \<and>
   processedCompanies (progress (fst (scrapePortfolio defaultConfig (worldOf [twinPage]) newScraper))) = 2"
  by code_simp

section \<open>Properties of normalizeLocation\<close>

lemma toLowerCase_length [simp]: "length (toLowerCase s) = length s"
  by (simp add: toLowerCase_def)

lemma toLowerCase_append: "toLowerCase (a @ b) = toLowerCase a @ toLowerCase b"
  by (simp add: toLowerCase_def)

lemma endsWithIgnoreCase_append:
  "length k = length k' \<Longrightarrow> endsWithIgnoreCase (p @ k) k' \<longleftrightarrow> toLowerCase k = toLowerCase k'"
  by (simp add: endsWithIgnoreCase_def)

lemma endsWithIgnoreCase_iff:
  "endsWithIgnoreCase s k \<longleftrightarrow> (\<exists>p t. s = p @ t \<and> length t = length k \<and> toLowerCase t = toLowerCase k)"
proof
  assume "endsWithIgnoreCase s k"
  then have "s = take (length s - length k) s @ drop (length s - length k) s \<and>
    length (drop (length s - length k) s) = length k \<and>
    toLowerCase (drop (length s - length k) s) = toLowerCase k"
    by (auto simp: endsWithIgnoreCase_def)
  then show "\<exists>p t. s = p @ t \<and> length t = length k \<and> toLowerCase t = toLowerCase k"
    by blast
next
  assume "\<exists>p t. s = p @ t \<and> length t = length k \<and> toLowerCase t = toLowerCase k"
  then show "endsWithIgnoreCase s k"
    by (auto simp: endsWithIgnoreCase_def)
qed

lemma lower_UK: "toLowerCase ''UK'' = ''uk''"
  by code_simp

lemma lower_USA: "toLowerCase ''USA'' = ''usa''"
  by code_simp

lemma lower_US: "toLowerCase ''US'' = ''us''"
  by code_simp

lemma countrySuffixLength_code:
  assumes "isCountryCode k"
  shows "countrySuffixLength (q @ k) = length k"
proof -
  have len: "length k = length (toLowerCase k)" by simp
  consider (uk) "toLowerCase k = ''uk''" | (usa) "toLowerCase k = ''usa''" | (us) "toLowerCase k = ''us''"
    using assms by (auto simp: isCountryCode_def)
  then show ?thesis
  proof cases
    case uk
    then have l: "length k = 2" using len by simp
    then have "endsWithIgnoreCase (q @ k) ''UK''"
      using uk by (simp add: endsWithIgnoreCase_append lower_UK)
    then show ?thesis using l by (simp add: countrySuffixLength_def)
  next
    case usa
    then have l: "length k = 3" using len by simp
    have a: "endsWithIgnoreCase (q @ k) ''USA''"
      using usa l by (simp add: endsWithIgnoreCase_append lower_USA)
    obtain a1 a2 a3 where k: "k = [a1, a2, a3]"
      using l by (auto simp: length_Suc_conv numeral_3_eq_3)
    have "q @ k = (q @ [a1]) @ [a2, a3]" using k by simp
    then have "endsWithIgnoreCase (q @ k) ''UK'' \<longleftrightarrow> toLowerCase [a2, a3] = toLowerCase ''UK''"
      using endsWithIgnoreCase_append [of "[a2, a3]" "''UK''" "q @ [a1]"] by simp
    moreover have "toLowerCase [a2, a3] = ''sa''"
      using usa k by (simp add: toLowerCase_def)
    ultimately have b: "\<not> endsWithIgnoreCase (q @ k) ''UK''"
      by (simp add: lower_UK)
    show ?thesis using a b l by (simp add: countrySuffixLength_def)
  next
    case us
    then have l: "length k = 2" using len by simp
    have a: "endsWithIgnoreCase (q @ k) ''US''"
      using us l by (simp add: endsWithIgnoreCase_append lower_US)
    have b: "\<not> endsWithIgnoreCase (q @ k) ''UK''"
      using us l by (simp add: endsWithIgnoreCase_append lower_UK)
    have c: "\<not> endsWithIgnoreCase (q @ k) ''USA''"
    proof
      assume "endsWithIgnoreCase (q @ k) ''USA''"
      then obtain p t where pt: "q @ k = p @ t" "length t = 3" "toLowerCase t = toLowerCase ''USA''"
        by (auto simp: endsWithIgnoreCase_iff)
      then have "drop (length (q @ k) - 2) (q @ k) = drop 1 t"
        by (simp add: pt(1))
      then have "k = drop 1 t" using l by simp
      then have "toLowerCase k = drop 1 (toLowerCase t)"
        by (simp add: toLowerCase_def drop_map)
      then show False using us pt(3) by (simp add: lower_USA)
    qed
    show ?thesis using a b c l by (simp add: countrySuffixLength_def)
  qed
qed


lemma dropTrailingSpaces_spaces:
  "list_all isSpace w \<Longrightarrow> dropTrailingSpaces (q @ w) = dropTrailingSpaces q"
  by (induction w rule: rev_induct) (simp_all add: dropTrailingSpaces_def)

lemma dropTrailingSpaces_id:
  "q = [] \<or> \<not> isSpace (last q) \<Longrightarrow> dropTrailingSpaces q = q"
  by (cases q rule: rev_cases) (simp_all add: dropTrailingSpaces_def)

lemma normalizeLocation_strips:
  assumes k: "isCountryCode k" and w: "list_all isSpace w"
    and c: "c = [] \<or> c = '',''"
    and p: "c = [] \<longrightarrow> p = [] \<or> (\<not> isSpace (last p) \<and> last p \<noteq> CHR '','')"
  shows "normalizeLocation (p @ c @ w @ k) = trim p"
proof -
  have kl: "0 < length k"
    using k by (auto simp: isCountryCode_def toLowerCase_def)
  have n: "countrySuffixLength (p @ c @ w @ k) = length k"
    using countrySuffixLength_code [OF k, of "p @ c @ w"] by simp
  have t: "take (length (p @ c @ w @ k) - length k) (p @ c @ w @ k) = p @ c @ w"
    by simp
  have d: "dropTrailingComma (dropTrailingSpaces ((p @ c) @ w)) = p"
  proof (cases "c = []")
    case True
    then have "dropTrailingSpaces ((p @ c) @ w) = p"
      using p w dropTrailingSpaces_spaces [of w "p @ c"] dropTrailingSpaces_id [of p] by auto
    then show ?thesis using p True by (auto simp: dropTrailingComma_def)
  next
    case False
    then have cc: "c = '',''" using c by simp
    have "\<not> isSpace CHR '',''" by (simp add: isSpace_def)
    then have "dropTrailingSpaces (p @ c) = p @ c"
      using cc dropTrailingSpaces_id [of "p @ c"] by simp
    then have "dropTrailingSpaces ((p @ c) @ w) = p @ '',''"
      using w cc dropTrailingSpaces_spaces [of w "p @ c"] by simp
    then show ?thesis by (simp add: dropTrailingComma_def)
  qed
  show ?thesis
    using n t d kl by (simp add: normalizeLocation_def Let_def del: take_append)
qed

section \<open>Properties of the record builder\<close>

lemma orElse_Nil [simp]: "orElse a [] = a"
  by (simp add: orElse_def)

lemma extract_Some:
  assumes "extractCompanyFromElement el y = Some r"
  shows "2 \<le> length (extractName (resolveCard el) (orEmpty (href el))) \<and>
         5 \<le> length (orEmpty (href el)) \<and>
         r = \<lparr> id' = ''antler-'' @ createSlug (extractName (resolveCard el) (orEmpty (href el))),
               name = trim (extractName (resolveCard el) (orEmpty (href el))),
               slug = createSlug (extractName (resolveCard el) (orEmpty (href el))),
               website = (if startsWith (orEmpty (href el)) ''http'' then orEmpty (href el)
                          else ''https://'' @ orEmpty (href el)),
               description = trim (extractDescription (resolveCard el)
                                     (extractName (resolveCard el) (orEmpty (href el)))),
               founded_year = extractFoundedYear (orEmpty (cardHtml (resolveCard el))) y,
               location = orElse (normalizeLocation (fst (extractLocationSector (resolveCard el)))) ''Unknown'',
               sector = orElse (snd (extractLocationSector (resolveCard el))) ''Unknown'',
               logo_url = extractLogo (resolveCard el),
               url = ''https://www.antler.co/portfolio/'' @
                       createSlug (extractName (resolveCard el) (orEmpty (href el))),
               api = ''https://antler-api.github.io/companies/'' @
                       createSlug (extractName (resolveCard el) (orEmpty (href el))) @ ''.json'' \<rparr>"
proof -
  define w where "w = orEmpty (href el)"
  define c where "c = resolveCard el"
  have b: "\<not> (w = [] \<or> length w < 5)" and bc: "buildCompany w c y = Some r"
    using assms by (auto simp: extractCompanyFromElement_def Let_def w_def c_def split: if_splits)
  define n where "n = extractName c w"
  have n2: "\<not> (n = [] \<or> length n < 2)"
    using bc by (auto simp: buildCompany_def Let_def n_def split: if_splits)
  obtain loc sec where ls: "extractLocationSector c = (loc, sec)"
    by (cases "extractLocationSector c")
  have "r = \<lparr> id' = ''antler-'' @ createSlug n, name = trim n, slug = createSlug n,
               website = (if startsWith w ''http'' then w else ''https://'' @ w),
               description = trim (extractDescription c n),
               founded_year = extractFoundedYear (orEmpty (cardHtml c)) y,
               location = orElse (normalizeLocation loc) ''Unknown'',
               sector = orElse sec ''Unknown'',
               logo_url = extractLogo c,
               url = ''https://www.antler.co/portfolio/'' @ createSlug n,
               api = ''https://antler-api.github.io/companies/'' @ createSlug n @ ''.json'' \<rparr>"
    using bc n2 ls unfolding buildCompany_def n_def [symmetric] Let_def
    by (simp split: if_splits)
  then show ?thesis using b n2 ls
    unfolding w_def c_def n_def by simp
qed

section \<open>Properties of the founded year\<close>

lemma startsWith_append: "startsWith s p \<Longrightarrow> s = p @ drop (length p) s"
  by (induction s p rule: startsWith.induct) auto

lemma lazyYear_sound:
  "lazyYear prev s = Some y \<Longrightarrow>
   \<exists>mid post. s = mid @ y @ post \<and> \<not> list_ex isLineTerminator mid \<and>
     \<not> isWordChar (last (prev # mid)) \<and> isYearToken y \<and>
     (case post of [] \<Rightarrow> True | n # _ \<Rightarrow> \<not> isWordChar n)"
proof (induction s arbitrary: prev)
  case Nil
  then show ?case by simp
next
  case (Cons c cs)
  show ?case
  proof (cases "yearTokenAt prev (c # cs)")
    case (Some t)
    then have ty: "t = y" using Cons.prems by simp
    have f: "\<not> isWordChar prev" "isYearToken (take 4 (c # cs))"
      "(case drop 4 (c # cs) of [] \<Rightarrow> True | n # _ \<Rightarrow> \<not> isWordChar n)" "y = take 4 (c # cs)"
      using Some ty by (auto simp: yearTokenAt_def split: if_splits)
    have "c # cs = [] @ y @ drop 4 (c # cs)"
      using f(4) by simp
    then show ?thesis using f
      by (intro exI [of _ "[]"] exI [of _ "drop 4 (c # cs)"]) simp
  next
    case None
    then have nl: "\<not> isLineTerminator c" and rec: "lazyYear c cs = Some y"
      using Cons.prems by (auto split: if_splits)
    from Cons.IH [OF rec] obtain mid post where
      m: "cs = mid @ y @ post" "\<not> list_ex isLineTerminator mid"
         "\<not> isWordChar (last (c # mid))" "isYearToken y"
         "(case post of [] \<Rightarrow> True | n # _ \<Rightarrow> \<not> isWordChar n)"
      by blast
    show ?thesis using m nl
      by (intro exI [of _ "c # mid"] exI [of _ post]) simp
  qed
qed

lemma afterImgTag_sound:
  assumes "afterImgTag s = Some y"
  shows "\<exists>tag mid post. s = tag @ ''>'' @ mid @ y @ post \<and> CHR ''>'' \<notin> set tag \<and>
     \<not> list_ex isLineTerminator mid \<and> \<not> isWordChar (last (CHR ''>'' # mid)) \<and> isYearToken y \<and>
     (case post of [] \<Rightarrow> True | n # _ \<Rightarrow> \<not> isWordChar n)"
proof -
  define tag where "tag = takeWhile (\<lambda>c. c \<noteq> CHR ''>'') s"
  obtain g rest where d: "dropWhile (\<lambda>c. c \<noteq> CHR ''>'') s = g # rest" and l: "lazyYear g rest = Some y"
    using assms by (auto simp: afterImgTag_def split: list.splits)
  have g: "g = CHR ''>''"
    using hd_dropWhile [of "\<lambda>c. c \<noteq> CHR ''>''" s] d by simp
  have s: "s = tag @ ''>'' @ rest"
    using takeWhile_dropWhile_id [of "\<lambda>c. c \<noteq> CHR ''>''" s] d g by (simp add: tag_def)
  have t: "CHR ''>'' \<notin> set tag"
    unfolding tag_def by (auto dest: set_takeWhileD)
  from lazyYear_sound [OF l] obtain mid post where
    m: "rest = mid @ y @ post" "\<not> list_ex isLineTerminator mid"
       "\<not> isWordChar (last (g # mid))" "isYearToken y"
       "(case post of [] \<Rightarrow> True | n # _ \<Rightarrow> \<not> isWordChar n)"
    by blast
  show ?thesis using s t m g
    by (intro exI [of _ tag] exI [of _ mid] exI [of _ post]) simp
qed

lemma structuralYearMatch_sound:
  "structuralYearMatch s = Some y \<Longrightarrow> imageBeforeYear s (parseInt y)"
proof (induction s)
  case Nil
  then show ?case by simp
next
  case (Cons c cs)
  show ?case
  proof (cases "startsWith (c # cs) ''<img'' \<and> afterImgTag (drop 4 (c # cs)) = Some y")
    case True
    have len: "length ''<img'' = 4" by simp
    have s: "c # cs = ''<img'' @ drop 4 (c # cs)"
      using startsWith_append [of "c # cs" "''<img''"] True unfolding len by blast
    from afterImgTag_sound obtain tag mid post where
      m: "drop 4 (c # cs) = tag @ ''>'' @ mid @ y @ post" "CHR ''>'' \<notin> set tag"
         "\<not> list_ex isLineTerminator mid" "\<not> isWordChar (last (CHR ''>'' # mid))" "isYearToken y"
         "(case post of [] \<Rightarrow> True | n # _ \<Rightarrow> \<not> isWordChar n)"
      using True by blast
    have "c # cs = [] @ ''<img'' @ tag @ ''>'' @ mid @ y @ post"
      using s m(1) by simp
    then show ?thesis unfolding imageBeforeYear_def using m
      by (intro exI [of _ "[]"] exI [of _ tag] exI [of _ mid] exI [of _ y] exI [of _ post]) simp
  next
    case False
    then have "structuralYearMatch cs = Some y"
      using Cons.prems by (auto split: if_splits option.splits)
    from Cons.IH [OF this] obtain pre tag mid t post where
      m: "cs = pre @ ''<img'' @ tag @ ''>'' @ mid @ t @ post" "CHR ''>'' \<notin> set tag"
         "\<not> list_ex isLineTerminator mid" "\<not> isWordChar (last (CHR ''>'' # mid))" "isYearToken t"
         "parseInt t = parseInt y"
         "(case post of [] \<Rightarrow> True | n # _ \<Rightarrow> \<not> isWordChar n)"
      unfolding imageBeforeYear_def by blast
    have "c # cs = (c # pre) @ ''<img'' @ tag @ ''>'' @ mid @ t @ post"
      using m(1) by simp
    then show ?thesis unfolding imageBeforeYear_def using m
      by (intro exI [of _ "c # pre"] exI [of _ tag] exI [of _ mid] exI [of _ t] exI [of _ post]) simp
  qed
qed

lemma extractFoundedYear_cases:
  "extractFoundedYear h y = 0 \<or>
   (1940 \<le> extractFoundedYear h y \<and> extractFoundedYear h y \<le> y \<and>
    imageBeforeYear h (extractFoundedYear h y))"
  by (auto simp: extractFoundedYear_def structuralYearMatch_sound split: option.splits)

text \<open>
  Claim C6. The founded year of a built record is not zero only when the structural
  pattern matches the raw markup of the card: an image tag, then on the same line a
  four-digit year token, and the token reads the founded year, which lies between 1940
  and the current year. When the markup holds no image tag before a year token of that
  range, the founded year is 0. So the founded year is 0 or lies in that range.
\<close>

theorem founded_year_structural:
  "extractCompanyFromElement el y = Some r \<longrightarrow>
     (founded_year r = 0 \<or> (1940 \<le> founded_year r \<and> founded_year r \<le> y)) \<and>
     (founded_year r \<noteq> 0 \<longrightarrow>
        imageBeforeYear (orEmpty (cardHtml (resolveCard el))) (founded_year r)) \<and>
     ((\<forall>n. 1940 \<le> n \<and> n \<le> y \<longrightarrow> \<not> imageBeforeYear (orEmpty (cardHtml (resolveCard el))) n) \<longrightarrow>
        founded_year r = 0)"
proof
  assume a: "extractCompanyFromElement el y = Some r"
  have f: "founded_year r = extractFoundedYear (orEmpty (cardHtml (resolveCard el))) y"
    using extract_Some [OF a] by simp
  show "(founded_year r = 0 \<or> (1940 \<le> founded_year r \<and> founded_year r \<le> y)) \<and>
     (founded_year r \<noteq> 0 \<longrightarrow>
        imageBeforeYear (orEmpty (cardHtml (resolveCard el))) (founded_year r)) \<and>
     ((\<forall>n. 1940 \<le> n \<and> n \<le> y \<longrightarrow> \<not> imageBeforeYear (orEmpty (cardHtml (resolveCard el))) n) \<longrightarrow>
        founded_year r = 0)"
  proof (cases "extractFoundedYear (orEmpty (cardHtml (resolveCard el))) y = 0")
    case True
    then show ?thesis using f by simp
  next
    case False
    then have "1940 \<le> founded_year r \<and> founded_year r \<le> y \<and>
        imageBeforeYear (orEmpty (cardHtml (resolveCard el))) (founded_year r)"
      using extractFoundedYear_cases [of "orEmpty (cardHtml (resolveCard el))" y] f by simp
    then show ?thesis by blast
  qed
qed

theorem founded_year_structural_witness:
  "extractCompanyFromElement nimbusAnchor 2026 = Some nimbusRecord \<and>
   founded_year nimbusRecord = 2021 \<and>
   imageBeforeYear (orEmpty (cardHtml (resolveCard nimbusAnchor))) 2021"
proof -
  have a: "extractCompanyFromElement nimbusAnchor 2026 = Some nimbusRecord"
    by code_simp
  have b: "founded_year nimbusRecord = 2021"
    by (simp add: nimbusRecord_def)
  show ?thesis
    using founded_year_structural [of nimbusAnchor 2026 nimbusRecord] a b by simp
qed

text \<open>
  Claim C5. A single placeholder anchor whose text is both a location and a sector is the
  location, and leaves the sector unset, so the record's sector is \<open>Unknown\<close>. Two
  placeholder anchors \<open>Singapore\<close> and \<open>FinTech\<close>, in that order, give the record the location
  \<open>Singapore\<close> and the sector \<open>FinTech\<close>.
\<close>

theorem location_first_priority:
  "(isLocationText (trim t) \<and> isSectorText (trim t) \<longrightarrow> classifyHashLinks [t] = (trim t, [])) \<and>
   (extractCompanyFromElement el y = Some r \<and> hashLinks (resolveCard el) = [t] \<and>
    isLocationText (trim t) \<and> isSectorText (trim t) \<longrightarrow>
      location r = orElse (normalizeLocation (trim t)) ''Unknown'' \<and> sector r = ''Unknown'') \<and>
   (extractCompanyFromElement el y = Some r \<and>
    hashLinks (resolveCard el) = [''Singapore'', ''FinTech''] \<longrightarrow>
      location r = ''Singapore'' \<and> sector r = ''FinTech'')"
proof (intro conjI impI)
  assume "isLocationText (trim t) \<and> isSectorText (trim t)"
  then show "classifyHashLinks [t] = (trim t, [])"
    by (simp add: classifyHashLinks_def)
next
  assume a: "extractCompanyFromElement el y = Some r \<and> hashLinks (resolveCard el) = [t] \<and>
    isLocationText (trim t) \<and> isSectorText (trim t)"
  then have c: "classifyHashLinks (hashLinks (resolveCard el)) = (trim t, [])"
    by (simp add: classifyHashLinks_def)
  have "trim t \<noteq> []"
    using a by (auto simp: isSectorText_def sectors_def toLowerCase_def)
  then have e: "extractLocationSector (resolveCard el) = (trim t, [])"
    using c by (simp add: extractLocationSector_def)
  show "location r = orElse (normalizeLocation (trim t)) ''Unknown''"
    using extract_Some [of el y r] a e by simp
  show "sector r = ''Unknown''"
    using extract_Some [of el y r] a e by (simp add: orElse_def)
next
  assume a: "extractCompanyFromElement el y = Some r \<and>
    hashLinks (resolveCard el) = [''Singapore'', ''FinTech'']"
  have "classifyHashLinks [''Singapore'', ''FinTech''] = (''Singapore'', ''FinTech'')"
    by code_simp
  then have e: "extractLocationSector (resolveCard el) = (''Singapore'', ''FinTech'')"
    using a by (simp add: extractLocationSector_def)
  have n: "normalizeLocation ''Singapore'' = ''Singapore''"
    by code_simp
  show "location r = ''Singapore''"
    using extract_Some [of el y r] a e n by (simp add: orElse_def)
  show "sector r = ''FinTech''"
    using extract_Some [of el y r] a e by (simp add: orElse_def)
qed

theorem location_first_priority_witness:
  "isLocationText (trim '' Singapore '') \<and> isSectorText (trim '' Singapore '') \<and>
   classifyHashLinks ['' Singapore ''] = (''Singapore'', []) \<and>
   map_option location (extractCompanyFromElement (soloAnchor '' Singapore '') 2026) = Some ''Singapore'' \<and>
   map_option sector (extractCompanyFromElement (soloAnchor '' Singapore '') 2026) = Some ''Unknown'' \<and>
   extractCompanyFromElement nimbusAnchor 2026 = Some nimbusRecord \<and>
   location nimbusRecord = ''Singapore'' \<and> sector nimbusRecord = ''FinTech''"
proof -
  define r where "r = nimbusRecord\<lparr> sector := ''Unknown'' \<rparr>"
  have t: "trim '' Singapore '' = ''Singapore''"
    by code_simp
  have ls: "isLocationText (trim '' Singapore '') \<and> isSectorText (trim '' Singapore '')"
    by code_simp
  have a: "extractCompanyFromElement (soloAnchor '' Singapore '') 2026 = Some r"
    unfolding r_def by code_simp
  have h: "hashLinks (resolveCard (soloAnchor '' Singapore '')) = ['' Singapore '']"
    by code_simp
  have b: "extractCompanyFromElement nimbusAnchor 2026 = Some nimbusRecord"
    by code_simp
  have g: "hashLinks (resolveCard nimbusAnchor) = [''Singapore'', ''FinTech'']"
    by code_simp
  have n: "normalizeLocation ''Singapore'' = ''Singapore''"
    by code_simp
  show ?thesis
    using location_first_priority [of "'' Singapore ''" "soloAnchor '' Singapore ''" 2026 r]
      location_first_priority [of "'' Singapore ''" nimbusAnchor 2026 nimbusRecord]
      ls a h b g
    by (simp add: t n orElse_def)
qed

text \<open>
  Claim C10. \<open>normalizeLocation\<close> removes one trailing country code \<open>UK\<close>, \<open>USA\<close> or \<open>US\<close>, in
  any letter case, with the white space before it and one comma before that, and trims
  what is left; a text that ends in none of the codes is only trimmed. So a card whose
  location text is exactly \<open>US\<close>, \<open>UK\<close> or \<open>USA\<close>, which \<open>isLocationText\<close> accepts, has
  the empty normalized location and its record has the location \<open>Unknown\<close>.
\<close>

theorem normalizeLocation_country_code:
  "(isCountryCode k \<and> list_all isSpace w \<and> (c = [] \<or> c = '','') \<and>
    (c = [] \<longrightarrow> p = [] \<or> (\<not> isSpace (last p) \<and> last p \<noteq> CHR '','')) \<longrightarrow>
      normalizeLocation (p @ c @ w @ k) = trim p) \<and>
   (countrySuffixLength loc = 0 \<longrightarrow> normalizeLocation loc = trim loc) \<and>
   (extractCompanyFromElement el y = Some r \<and>
    fst (extractLocationSector (resolveCard el)) = t \<and>
    (t = ''US'' \<or> t = ''UK'' \<or> t = ''USA'') \<longrightarrow>
      isLocationText t \<and> normalizeLocation t = [] \<and> location r = ''Unknown'')"
proof (intro conjI impI)
  assume "isCountryCode k \<and> list_all isSpace w \<and> (c = [] \<or> c = '','') \<and>
    (c = [] \<longrightarrow> p = [] \<or> (\<not> isSpace (last p) \<and> last p \<noteq> CHR '',''))"
  then show "normalizeLocation (p @ c @ w @ k) = trim p"
    by (intro normalizeLocation_strips) simp_all
next
  assume "countrySuffixLength loc = 0"
  then show "normalizeLocation loc = trim loc"
    by (simp add: normalizeLocation_def)
next
  assume a: "extractCompanyFromElement el y = Some r \<and>
    fst (extractLocationSector (resolveCard el)) = t \<and>
    (t = ''US'' \<or> t = ''UK'' \<or> t = ''USA'')"
  have l: "isLocationText ''US'' \<and> isLocationText ''UK'' \<and> isLocationText ''USA''"
    by code_simp
  have n: "normalizeLocation ''US'' = [] \<and> normalizeLocation ''UK'' = [] \<and> normalizeLocation ''USA'' = []"
    by code_simp
  show "isLocationText t" using a l by auto
  show "normalizeLocation t = []" using a n by auto
  then show "location r = ''Unknown''"
    using extract_Some [of el y r] a by (simp add: orElse_def)
qed

theorem normalizeLocation_country_code_witness:
  "normalizeLocation ''Austin, us'' = ''Austin'' \<and>
   normalizeLocation '' London '' = ''London'' \<and>
   fst (extractLocationSector (resolveCard (soloAnchor ''US''))) = ''US'' \<and>
   isLocationText ''US'' \<and> normalizeLocation ''US'' = [] \<and>
   map_option location (extractCompanyFromElement (soloAnchor ''US'') 2026) = Some ''Unknown''"
proof -
  define r where "r = nimbusRecord\<lparr> location := ''Unknown'', sector := ''Unknown'' \<rparr>"
  have k: "isCountryCode ''us'' \<and> list_all isSpace '' ''"
    by code_simp
  have q: "\<not> isSpace (last ''Austin'') \<and> last ''Austin'' \<noteq> CHR '',''"
    by code_simp
  have t: "trim ''Austin'' = ''Austin'' \<and> trim '' London '' = ''London''"
    by code_simp
  have z: "countrySuffixLength '' London '' = 0"
    by code_simp
  have a: "extractCompanyFromElement (soloAnchor ''US'') 2026 = Some r"
    unfolding r_def by code_simp
  have e: "fst (extractLocationSector (resolveCard (soloAnchor ''US''))) = ''US''"
    by code_simp
  have "normalizeLocation (''Austin'' @ '','' @ '' '' @ ''us'') = trim ''Austin''"
    using normalizeLocation_country_code [of "''us''" "'' ''" "'',''" "''Austin''"] k by simp
  moreover have "normalizeLocation '' London '' = trim '' London ''"
    using normalizeLocation_country_code [of _ _ _ _ "'' London ''"] z by simp
  moreover have "isLocationText ''US'' \<and> normalizeLocation ''US'' = [] \<and> location r = ''Unknown''"
    using normalizeLocation_country_code [of _ _ _ _ _ "soloAnchor ''US''" 2026 r "''US''"] a e by simp
  ultimately show ?thesis using t a e by simp
qed

section \<open>Properties of the link discovery\<close>

lemma linkLoop_processed:
  "set (fst (linkLoop y els seen)) \<subseteq> set els \<and>
   (\<forall>el\<in>set (fst (linkLoop y els seen)). websiteOf el \<notin> seen) \<and>
   distinct (map websiteOf (fst (linkLoop y els seen))) \<and>
   (\<forall>el\<in>set els. websiteOf el \<in> seen \<or> websiteOf el \<in> websiteOf ` set (fst (linkLoop y els seen)))"
proof (induction els arbitrary: seen)
  case Nil
  then show ?case by simp
next
  case (Cons el els)
  show ?case
  proof (cases "websiteOf el \<in> seen")
    case True
    then have "linkLoop y (el # els) seen = linkLoop y els seen"
      by (simp add: websiteOf_def)
    then show ?thesis using Cons.IH [of seen] True by auto
  next
    case False
    then have e: "fst (linkLoop y (el # els) seen) =
        el # fst (linkLoop y els (insert (websiteOf el) seen))"
      by (simp add: websiteOf_def Let_def split: prod.split)
    show ?thesis unfolding e using Cons.IH [of "insert (websiteOf el) seen"] False
      by auto
  qed
qed

lemma linkLoop_companies:
  "snd (linkLoop y els seen) =
     List.map_filter (\<lambda>el. extractCompanyFromElement el y) (fst (linkLoop y els seen))"
proof (induction els arbitrary: seen)
  case Nil
  then show ?case by simp
next
  case (Cons el els)
  show ?case
  proof (cases "orElse (orEmpty (href el)) [] \<in> seen")
    case True
    then show ?thesis using Cons.IH [of seen] by simp
  next
    case False
    obtain ps cs where r: "linkLoop y els (insert (orElse (orEmpty (href el)) []) seen) = (ps, cs)"
      by (cases "linkLoop y els (insert (orElse (orEmpty (href el)) []) seen)")
    have "cs = List.map_filter (\<lambda>el. extractCompanyFromElement el y) ps"
      using Cons.IH [of "insert (orElse (orEmpty (href el)) []) seen"] r by simp
    then show ?thesis using False r
      by (simp add: Let_def split: option.split)
  qed
qed

lemma companyLinks_member:
  assumes "el \<in> set (companyLinks doc)"
  shows "el \<in> set (anchors doc) \<and> hasSecureHref el \<and> isCompanyLink el \<and>
    (portfolioContainerExists doc \<and> (\<exists>a\<in>set (anchors doc). hasSecureHref a \<and> inPortfolio a)
       \<longrightarrow> inPortfolio el)"
proof (cases "portfolioContainerExists doc \<and>
    filter inPortfolio (filter hasSecureHref (anchors doc)) \<noteq> []")
  case True
  then have "companyLinks doc =
      filter isCompanyLink (filter inPortfolio (filter hasSecureHref (anchors doc)))"
    by (simp add: companyLinks_def Let_def)
  then show ?thesis using assms by auto
next
  case False
  then have c: "companyLinks doc = filter isCompanyLink (filter hasSecureHref (anchors doc))"
    by (auto simp: companyLinks_def Let_def)
  have "\<not> (portfolioContainerExists doc \<and> (\<exists>a\<in>set (anchors doc). hasSecureHref a \<and> inPortfolio a))"
    using False by (auto simp: filter_empty_conv)
  then show ?thesis using assms c by auto
qed

lemma isCompanyLink_href:
  assumes "hasSecureHref el" and "isCompanyLink el"
  shows "\<exists>h. href el = Some h \<and> websiteOf el = h \<and> startsWith h ''https://'' \<and> length h > 10 \<and>
    (\<forall>d\<in>set denylist. \<not> includesStr h d)"
  using assms
  by (cases "href el")
     (auto simp: hasSecureHref_def isCompanyLink_def websiteOf_def orEmpty_def list_ex_iff)


text \<open>
  Claim C8. Every anchor handed to \<open>extractCompanyFromElement\<close> is an anchor of the page
  whose \<open>href\<close> begins with \<open>https://\<close>, is longer than 10 characters and contains no entry
  of the denylist (the hosts \<open>antler.co\<close>, \<open>linkedin.com\<close>, \<open>twitter.com\<close>, \<open>facebook.com\<close>,
  \<open>instagram.com\<close>, \<open>youtube.com\<close>, \<open>tiktok.com\<close>, \<open>github.com\<close>, \<open>medium.com\<close>,
  \<open>apple.com\<close>, \<open>google.com\<close>, and \<open>mailto:\<close> and \<open>tel:\<close>). When a portfolio container
  exists and holds such an anchor, every candidate lies in a portfolio container. No
  two candidates processed have the same \<open>href\<close>, every selected link has its \<open>href\<close>
  processed, and the companies of the page are those built from the candidates, in order.
\<close>

theorem candidate_links:
  "(\<forall>el\<in>set (processedCandidates doc y).
      el \<in> set (anchors doc) \<and>
      (\<exists>h. href el = Some h \<and> startsWith h ''https://'' \<and> length h > 10 \<and>
           (\<forall>d\<in>set denylist. \<not> includesStr h d)) \<and>
      (portfolioContainerExists doc \<and> (\<exists>a\<in>set (anchors doc). hasSecureHref a \<and> inPortfolio a)
         \<longrightarrow> inPortfolio el)) \<and>
   distinct (map href (processedCandidates doc y)) \<and>
   (\<forall>el\<in>set (companyLinks doc). href el \<in> set (map href (processedCandidates doc y))) \<and>
   extractCompaniesFromCurrentPage doc y =
     List.map_filter (\<lambda>el. extractCompanyFromElement el y) (processedCandidates doc y)"
proof -
  define ps where "ps = processedCandidates doc y"
  have l: "set ps \<subseteq> set (companyLinks doc) \<and> distinct (map websiteOf ps) \<and>
      (\<forall>el\<in>set (companyLinks doc). websiteOf el \<in> websiteOf ` set ps)"
    using linkLoop_processed [of y "companyLinks doc" "{}"]
    by (simp add: ps_def processedCandidates_def)
  have m: "\<And>el. el \<in> set (companyLinks doc) \<Longrightarrow> href el = Some (websiteOf el)"
    using companyLinks_member isCompanyLink_href by (metis)
  have a: "\<forall>el\<in>set ps.
      el \<in> set (anchors doc) \<and>
      (\<exists>h. href el = Some h \<and> startsWith h ''https://'' \<and> length h > 10 \<and>
           (\<forall>d\<in>set denylist. \<not> includesStr h d)) \<and>
      (portfolioContainerExists doc \<and> (\<exists>a\<in>set (anchors doc). hasSecureHref a \<and> inPortfolio a)
         \<longrightarrow> inPortfolio el)"
  proof
    fix el assume "el \<in> set ps"
    then have c: "el \<in> set (companyLinks doc)" using l by blast
    from companyLinks_member [OF c] isCompanyLink_href [of el]
    show "el \<in> set (anchors doc) \<and>
      (\<exists>h. href el = Some h \<and> startsWith h ''https://'' \<and> length h > 10 \<and>
           (\<forall>d\<in>set denylist. \<not> includesStr h d)) \<and>
      (portfolioContainerExists doc \<and> (\<exists>a\<in>set (anchors doc). hasSecureHref a \<and> inPortfolio a)
         \<longrightarrow> inPortfolio el)"
      by blast
  qed
  have e: "map href ps = map (\<lambda>el. Some (websiteOf el)) ps"
    using l m by (intro map_cong) auto
  have b: "distinct (map href ps)"
    unfolding e using l by (simp add: distinct_map inj_on_def comp_def)
  have c: "\<forall>el\<in>set (companyLinks doc). href el \<in> set (map href ps)"
  proof
    fix el assume el: "el \<in> set (companyLinks doc)"
    then obtain p where p: "p \<in> set ps" "websiteOf el = websiteOf p" using l by auto
    then have "href p = Some (websiteOf p)" using l m by blast
    then show "href el \<in> set (map href ps)" using m [OF el] p by force
  qed
  have d: "extractCompaniesFromCurrentPage doc y =
     List.map_filter (\<lambda>el. extractCompanyFromElement el y) ps"
    by (simp add: extractCompaniesFromCurrentPage_def ps_def processedCandidates_def linkLoop_companies)
  show ?thesis using a b c d unfolding ps_def by blast
qed

theorem candidate_links_witness:
  "processedCandidates directoryPage 2026 = [nimbusEntry] \<and>
   nimbusEntry \<in> set (anchors directoryPage) \<and>
   href nimbusEntry = Some ''https://nimbus.io/'' \<and>
   inPortfolio nimbusEntry \<and>
   distinct (map href (processedCandidates directoryPage 2026)) \<and>
   extractCompaniesFromCurrentPage directoryPage 2026 = [nimbusRecord]"
proof -
  have p: "processedCandidates directoryPage 2026 = [nimbusEntry]"
    by code_simp
  have h: "href nimbusEntry = Some ''https://nimbus.io/''"
    by code_simp
  have x: "portfolioContainerExists directoryPage \<and> nimbusEntry \<in> set (anchors directoryPage) \<and>
      hasSecureHref nimbusEntry \<and> inPortfolio nimbusEntry"
    by code_simp
  have r: "extractCompanyFromElement nimbusEntry 2026 = Some nimbusRecord"
    by code_simp
  show ?thesis
    using candidate_links [of directoryPage 2026] p h x r
    by simp
qed

section \<open>Properties of the pagination loop\<close>

declare pageLoop.simps [simp del]

lemma writeJsonFile_keeps:
  "companies (fst (writeJsonFile env path b s)) = companies s \<and>
   progress (fst (writeJsonFile env path b s)) = progress s \<and>
   navigations (fst (writeJsonFile env path b s)) = navigations s \<and>
   pageReady (fst (writeJsonFile env path b s)) = pageReady s"
  by (simp add: writeJsonFile_def split: option.split)



lemma andThen_keeps:
  assumes "\<And>t. companies (fst (f t)) = companies t \<and> progress (fst (f t)) = progress t \<and>
             navigations (fst (f t)) = navigations t \<and> pageReady (fst (f t)) = pageReady t"
    and "companies (fst r) = companies s \<and> progress (fst r) = progress s \<and>
             navigations (fst r) = navigations s \<and> pageReady (fst r) = pageReady s"
  shows "companies (fst (andThen r f)) = companies s \<and> progress (fst (andThen r f)) = progress s \<and>
             navigations (fst (andThen r f)) = navigations s \<and> pageReady (fst (andThen r f)) = pageReady s"
proof (cases r)
  case (Pair t e)
  then show ?thesis using assms by (cases e) (simp_all add: andThen_def)
qed

lemma writeAggregates_keeps:
  "companies (fst (writeAggregates cfg env s)) = companies s \<and>
   progress (fst (writeAggregates cfg env s)) = progress s \<and>
   navigations (fst (writeAggregates cfg env s)) = navigations s \<and>
   pageReady (fst (writeAggregates cfg env s)) = pageReady s"
  unfolding writeAggregates_def
  by (rule andThen_keeps) (simp_all only: writeJsonFile_keeps simp_thms)





















lemma slugs_newRecords:
  "map slug (newRecords s recs) =
     filter (\<lambda>x. x \<notin> set (map slug (companies s))) (map slug recs)"
  by (simp add: newRecords_def filter_map comp_def)



lemma merge_drops_accumulated_slugs:
  assumes "distinct (map slug (companies (fst sv)))"
    and "distinct (map slug (pageRecords env (currentPageVar (snd sv))))"
  shows "distinct (map slug (companies (fst (pageRound cfg env sv)))) \<and>
         processedCompanies (progress (fst (pageRound cfg env sv))) + length (companies (fst sv)) =
           processedCompanies (progress (fst sv)) + length (companies (fst (pageRound cfg env sv)))"
proof -
  let ?new = "newRecords (fst sv) (pageRecords env (currentPageVar (snd sv)))"
  have d: "distinct (map slug (companies (fst sv) @ ?new))"
    using assms by (auto simp: slugs_newRecords)
  have sv: "\<And>t. companies (fst (savePageCompanies cfg env t)) = companies t \<and>
      progress (fst (savePageCompanies cfg env t)) = progress t"
    by (simp add: savePageCompanies_def writeAggregates_keeps)
  have c: "(companies (fst (pageRound cfg env sv)) = companies (fst sv) \<and>
       processedCompanies (progress (fst (pageRound cfg env sv))) =
         processedCompanies (progress (fst sv))) \<or>
      (companies (fst (pageRound cfg env sv)) = companies (fst sv) @ ?new \<and>
       processedCompanies (progress (fst (pageRound cfg env sv))) =
         processedCompanies (progress (fst sv)) + length ?new)"
    unfolding pageRound_def Let_def newRecords_def pageRecords_def
    by (simp add: sv split: option.split)
  show ?thesis using c d assms(1) by auto
qed


section \<open>Errors during a run\<close>





















section \<open>Pagination, as the code has it\<close>




section \<open>The name taken from an image\<close>

lemma startsWith_prefix: "startsWith (p @ s) p"
  by (induction p) auto

lemma record_fields_wellformed:
  assumes "extractCompanyFromElement el y = Some r"
  shows "id' r = ''antler-'' @ slug r \<and>
         startsWith (website r) ''http'' \<and>
         (logo_url r = [] \<or> startsWith (logo_url r) ''http'') \<and>
         (fst (extractLocationSector (resolveCard el)) = [] \<longrightarrow> location r = ''Unknown'') \<and>
         (snd (extractLocationSector (resolveCard el)) = [] \<longrightarrow> sector r = ''Unknown'')"
proof -
  note f = extract_Some [OF assms]
  have w: "startsWith (website r) ''http''"
    using f startsWith_prefix [of "''http''" "''s://'' @ orEmpty (href el)"] by auto
  have l: "logo_url r = [] \<or> startsWith (logo_url r) ''http''"
    using f startsWith_prefix [of "''http''" "''s:'' @ orEmpty (src (the (firstImg (resolveCard el))))"]
      startsWith_prefix [of "''http''" _]
    by (auto simp: extractLogo_def Let_def)
  have n: "normalizeLocation [] = []"
    by code_simp
  show ?thesis using f w l n by (simp add: orElse_def)
qed

text \<open>
  Claim C4. The name of a built record is not always as claimed: the length of the name
  is checked before the name is trimmed, and the \<open>alt\<close> text of an image is taken
  untrimmed. A logo with \<open>alt=" X"\<close> gives a record named \<open>X\<close>, of length 1, and one with
  a blank \<open>alt\<close> of two spaces gives a record with the empty name.
\<close>

theorem alt_name_checked_before_trim:
  "map_option name (extractCompanyFromElement (logoAnchor '' X'') 2026) = Some ''X'' \<and>
   map_option name (extractCompanyFromElement (logoAnchor ''  '') 2026) = Some []"
  by code_simp

text \<open>
  Claim C9. The synthesized sentence is made from the untrimmed name, the record keeps
  the trimmed one: a logo with \<open>alt="Nimbus "\<close> and no description gives a record named
  \<open>Nimbus\<close> whose description has two blanks after the name.
\<close>

theorem synthesized_description_keeps_raw_name:
  "map_option name (extractCompanyFromElement (logoAnchor ''Nimbus '') 2026) = Some ''Nimbus'' \<and>
   map_option description (extractCompanyFromElement (logoAnchor ''Nimbus '') 2026) =
     Some ''Nimbus  is a portfolio company of Antler.''"
  by code_simp

end
